theory Spec2Isabelle
  imports Complex_Main "HOL-Library.AList"
begin

section \<open>Clip Generator: timestamp resolution and topic classification\<close>

text \<open>
  A shallow embedding of \<^verbatim>\<open>core/clip_finder.py\<close> and \<^verbatim>\<open>core/topic_classifier.py\<close>.
  Python floats are modelled by exact rationals (\<^typ>\<open>rat\<close>): a decimal literal denotes
  its exact value, and rounding, overflow and the special values of binary floating point
  are outside the model. Python strings are modelled by \<^typ>\<open>string\<close>, that is, texts
  whose code points are below 256.
\<close>

subsection \<open>Topic classifier: the clustering bonus\<close>

text \<open>
  \<^verbatim>\<open>TopicClassifier._calculate_clustering_bonus(positions, content_length)\<close>: the guard
  on fewer than two positions, the in-place sort, and the loop
  \<^verbatim>\<open>for i in range(1, len(positions))\<close> with its accumulator. Every index the loop reads
  is below the length of the list.
\<close>

definition calculate_clustering_bonus :: "int list \<Rightarrow> nat \<Rightarrow> rat" where
  "calculate_clustering_bonus positions content_length =
     (if length positions < 2 then 0
      else let ps = sort positions in
        fold (\<lambda>i clustering_bonus.
                let distance = ps ! i - ps ! (i - 1)
                in if distance \<le> 100 then clustering_bonus + (100 - of_int distance) / 100
                   else clustering_bonus)
             [1..<length ps] 0)"

text \<open>
  The specification's reading of the same quantity: the contribution of one adjacent pair
  as a function of its distance, summed over the adjacent pairs of the sorted positions.
\<close>

definition pair_bonus :: "int \<Rightarrow> rat" where
  "pair_bonus distance = (if distance \<le> 100 then (100 - of_int distance) / 100 else 0)"

fun adjacent_pairs :: "'a list \<Rightarrow> ('a \<times> 'a) list" where
  "adjacent_pairs [] = []"
| "adjacent_pairs [x] = []"
| "adjacent_pairs (x # y # zs) = (x, y) # adjacent_pairs (y # zs)"

definition clustering_bonus_spec :: "int list \<Rightarrow> rat" where
  "clustering_bonus_spec positions =
     sum_list (map (\<lambda>(a, b). pair_bonus (b - a)) (adjacent_pairs (sort positions)))"

subsection \<open>Characters and strings\<close>

definition code_point :: "char \<Rightarrow> nat" where
  "code_point c = of_char c"

text \<open>\<^verbatim>\<open>str.isspace\<close> of one character, which is also the class \<^verbatim>\<open>\s\<close> of \<^verbatim>\<open>re\<close>.\<close>

definition isspace :: "char \<Rightarrow> bool" where
  "isspace c = (let n = code_point c
     in (9 \<le> n \<and> n \<le> 13) \<or> (28 \<le> n \<and> n \<le> 32) \<or> n = 133 \<or> n = 160)"

text \<open>The class \<^verbatim>\<open>\w\<close> of \<^verbatim>\<open>re\<close> on a \<^verbatim>\<open>str\<close> pattern: alphanumeric or underscore.\<close>

definition is_word_char :: "char \<Rightarrow> bool" where
  "is_word_char c = (let n = code_point c
     in (48 \<le> n \<and> n \<le> 57) \<or> (65 \<le> n \<and> n \<le> 90) \<or> n = 95 \<or> (97 \<le> n \<and> n \<le> 122)
        \<or> n = 170 \<or> n = 178 \<or> n = 179 \<or> n = 181 \<or> n = 185 \<or> n = 186
        \<or> (188 \<le> n \<and> n \<le> 190) \<or> (192 \<le> n \<and> n \<le> 214) \<or> (216 \<le> n \<and> n \<le> 246)
        \<or> (248 \<le> n \<and> n \<le> 255))"

definition upper_letters :: string where
  "upper_letters = ''ABCDEFGHIJKLMNOPQRSTUVWXYZ'' @
     [CHR 0xC0, CHR 0xC1, CHR 0xC2, CHR 0xC3, CHR 0xC4, CHR 0xC5, CHR 0xC6, CHR 0xC7,
      CHR 0xC8, CHR 0xC9, CHR 0xCA, CHR 0xCB, CHR 0xCC, CHR 0xCD, CHR 0xCE, CHR 0xCF,
      CHR 0xD0, CHR 0xD1, CHR 0xD2, CHR 0xD3, CHR 0xD4, CHR 0xD5, CHR 0xD6,
      CHR 0xD8, CHR 0xD9, CHR 0xDA, CHR 0xDB, CHR 0xDC, CHR 0xDD, CHR 0xDE]"

definition lower_letters :: string where
  "lower_letters = ''abcdefghijklmnopqrstuvwxyz'' @
     [CHR 0xE0, CHR 0xE1, CHR 0xE2, CHR 0xE3, CHR 0xE4, CHR 0xE5, CHR 0xE6, CHR 0xE7,
      CHR 0xE8, CHR 0xE9, CHR 0xEA, CHR 0xEB, CHR 0xEC, CHR 0xED, CHR 0xEE, CHR 0xEF,
      CHR 0xF0, CHR 0xF1, CHR 0xF2, CHR 0xF3, CHR 0xF4, CHR 0xF5, CHR 0xF6,
      CHR 0xF8, CHR 0xF9, CHR 0xFA, CHR 0xFB, CHR 0xFC, CHR 0xFD, CHR 0xFE]"

definition lower_char :: "char \<Rightarrow> char" where
  "lower_char c =
     (case map_of (zip upper_letters lower_letters) c of Some l \<Rightarrow> l | None \<Rightarrow> c)"

text \<open>\<^verbatim>\<open>str.lower\<close>.\<close>

definition lower :: "string \<Rightarrow> string" where
  "lower s = map lower_char s"

text \<open>\<^verbatim>\<open>str.split()\<close> with no argument: the maximal runs of non-whitespace characters.\<close>

fun split_ws :: "string \<Rightarrow> string \<Rightarrow> string list" where
  "split_ws cur [] = (if cur = [] then [] else [cur])"
| "split_ws cur (c # cs) =
     (if isspace c then (if cur = [] then split_ws [] cs else cur # split_ws [] cs)
      else split_ws (cur @ [c]) cs)"

definition str_split :: "string \<Rightarrow> string list" where
  "str_split s = split_ws [] s"

fun startswith :: "string \<Rightarrow> string \<Rightarrow> bool" where
  "startswith s [] = True"
| "startswith [] (k # ks) = False"
| "startswith (c # cs) (k # ks) = (c = k \<and> startswith cs ks)"

text \<open>The operator \<^verbatim>\<open>keyword in s\<close> on strings.\<close>

fun contains :: "string \<Rightarrow> string \<Rightarrow> bool" where
  "contains [] keyword = startswith [] keyword"
| "contains (c # cs) keyword = (startswith (c # cs) keyword \<or> contains cs keyword)"

subsection \<open>Whole-word keyword search\<close>

text \<open>
  \<^verbatim>\<open>re.finditer(r'\b' + re.escape(keyword) + r'\b', content_lower)\<close>: the start positions
  of the non-overlapping matches, left to right. The escaped keyword matches itself
  literally; \<^verbatim>\<open>\b\<close> holds between two neighbours of which exactly one is a word
  character, the outside of the text counting as a non-word character. After a match the
  search goes on behind it (one position further after an empty match).
  \<^verbatim>\<open>re.findall\<close> with the same pattern returns one item for each of these matches.
\<close>

definition is_word :: "char option \<Rightarrow> bool" where
  "is_word x = (case x of None \<Rightarrow> False | Some c \<Rightarrow> is_word_char c)"

definition word_boundary :: "char option \<Rightarrow> char option \<Rightarrow> bool" where
  "word_boundary l r = (is_word l \<noteq> is_word r)"

definition head_opt :: "string \<Rightarrow> char option" where
  "head_opt s = (case s of [] \<Rightarrow> None | c # _ \<Rightarrow> Some c)"

definition keyword_at :: "string \<Rightarrow> char option \<Rightarrow> string \<Rightarrow> bool" where
  "keyword_at keyword prev rest =
     (startswith rest keyword
      \<and> word_boundary prev (head_opt rest)
      \<and> word_boundary (if keyword = [] then prev else Some (last keyword))
                       (head_opt (drop (length keyword) rest)))"

fun finditer_from :: "string \<Rightarrow> nat \<Rightarrow> char option \<Rightarrow> nat \<Rightarrow> string \<Rightarrow> nat list" where
  "finditer_from keyword skip prev pos [] =
     (if skip = 0 \<and> keyword_at keyword prev [] then [pos] else [])"
| "finditer_from keyword skip prev pos (c # cs) =
     (if skip = 0 \<and> keyword_at keyword prev (c # cs)
      then pos # finditer_from keyword (length keyword - 1) (Some c) (pos + 1) cs
      else finditer_from keyword (skip - 1) (Some c) (pos + 1) cs)"

definition finditer_word :: "string \<Rightarrow> string \<Rightarrow> nat list" where
  "finditer_word keyword s = finditer_from keyword 0 None 0 s"

subsection \<open>Topic classifier\<close>

datatype py_error = KeyError string

text \<open>
  \<^verbatim>\<open>config.TOPIC_CATEGORIES\<close> is a dictionary from category names to keyword lists; its
  definition is not part of the sources at hand, so it is a parameter: an association
  list in the dictionary's iteration order. Dictionaries built by the classifier are
  association lists as well, and \<^verbatim>\<open>d[k] = v\<close> is \<^const>\<open>AList.update\<close>: it replaces the
  value of a key that is present, in place, and appends a new key at the end.
\<close>

type_synonym topic_categories = "(string \<times> string list) list"
type_synonym weight_table = "(string \<times> (string \<times> rat) list) list"

definition specific_terms :: "string list" where
  "specific_terms =
     [''federal reserve'', ''interest rate'', ''cpi'', ''gdp'', ''unemployment rate'']"

definition keyword_weight :: "string \<Rightarrow> rat" where
  "keyword_weight keyword =
     (let word_count = length (str_split keyword);
          base_weight = 1.0;
          base_weight = (if word_count > 1 then base_weight * 1.5 else base_weight);
          base_weight = (if keyword \<in> set specific_terms then base_weight * 2.0
                         else base_weight)
      in base_weight)"

fun keyword_weights :: "string list \<Rightarrow> (string \<times> rat) list \<Rightarrow> (string \<times> rat) list" where
  "keyword_weights [] cw = cw"
| "keyword_weights (keyword # rest) cw =
     keyword_weights rest (AList.update keyword (keyword_weight keyword) cw)"

fun calculate_category_weights :: "topic_categories \<Rightarrow> weight_table \<Rightarrow> weight_table" where
  "calculate_category_weights [] weights = weights"
| "calculate_category_weights ((cat, keywords) # rest) weights =
     (if cat = ''general'' then calculate_category_weights rest weights
      else calculate_category_weights rest
             (AList.update cat (keyword_weights keywords []) weights))"

record TopicClassifier =
  categories :: topic_categories
  category_weights :: weight_table

definition init :: "topic_categories \<Rightarrow> TopicClassifier" where
  "init config_categories =
     \<lparr>categories = config_categories,
      category_weights = calculate_category_weights config_categories []\<rparr>"

text \<open>\<^verbatim>\<open>self.category_weights[category].get(keyword, 1.0)\<close>; the subscript raises on a missing category.\<close>

definition get_weight :: "weight_table \<Rightarrow> string \<Rightarrow> string \<Rightarrow> py_error + rat" where
  "get_weight weights cat keyword =
     (case map_of weights cat of
        None \<Rightarrow> Inl (KeyError cat)
      | Some kws \<Rightarrow> Inr (case map_of kws keyword of Some w \<Rightarrow> w | None \<Rightarrow> 1.0))"

record description_entry =
  d_score :: rat
  d_matched_keywords :: "string list"

record content_entry =
  c_score :: rat
  base_score :: rat
  density_bonus :: rat
  clustering_bonus :: rat
  c_matched_keywords :: "string list"
  keyword_count :: nat

record 'e classification =
  primary_category :: string
  confidence_score :: rat
  all_scores :: "(string \<times> 'e) list"
  method_name :: string

text \<open>\<^verbatim>\<open>max(items, key=f)\<close> on a non-empty sequence: the first item of greatest key.\<close>

fun max_by :: "('a \<Rightarrow> rat) \<Rightarrow> 'a \<Rightarrow> 'a list \<Rightarrow> 'a" where
  "max_by f best [] = best"
| "max_by f best (x # xs) = (if f best < f x then max_by f x xs else max_by f best xs)"

fun description_keywords ::
  "weight_table \<Rightarrow> string \<Rightarrow> string \<Rightarrow> string list \<Rightarrow> rat \<times> string list
     \<Rightarrow> py_error + (rat \<times> string list)" where
  "description_keywords weights description_lower cat [] acc = Inr acc"
| "description_keywords weights description_lower cat (keyword # rest) (score, matched) =
     (if contains description_lower keyword
      then (case get_weight weights cat keyword of
              Inl e \<Rightarrow> Inl e
            | Inr weight \<Rightarrow>
                description_keywords weights description_lower cat rest
                  (score + weight, matched @ [keyword]))
      else description_keywords weights description_lower cat rest (score, matched))"

fun description_categories ::
  "weight_table \<Rightarrow> string \<Rightarrow> topic_categories \<Rightarrow> (string \<times> description_entry) list
     \<Rightarrow> py_error + (string \<times> description_entry) list" where
  "description_categories weights description_lower [] category_scores = Inr category_scores"
| "description_categories weights description_lower ((cat, keywords) # rest) category_scores =
     (if cat = ''general''
      then description_categories weights description_lower rest category_scores
      else (case description_keywords weights description_lower cat keywords (0.0, []) of
              Inl e \<Rightarrow> Inl e
            | Inr (score, matched) \<Rightarrow>
                description_categories weights description_lower rest
                  (if score > 0
                   then AList.update cat
                          \<lparr>d_score = score, d_matched_keywords = matched\<rparr> category_scores
                   else category_scores)))"

definition classify_by_description ::
  "TopicClassifier \<Rightarrow> string \<Rightarrow> py_error + description_entry classification" where
  "classify_by_description self description =
     (let description_lower = lower description
      in case description_categories (category_weights self) description_lower
                (categories self) [] of
           Inl e \<Rightarrow> Inl e
         | Inr category_scores \<Rightarrow>
             Inr (case category_scores of
                    [] \<Rightarrow> \<lparr>primary_category = ''general'', confidence_score = 0.0,
                           all_scores = [], method_name = ''default_fallback''\<rparr>
                  | first # others \<Rightarrow>
                      let (best_category, best) = max_by (\<lambda>x. d_score (snd x)) first others;
                          confidence = min (d_score best / 5.0) 1.0
                      in \<lparr>primary_category = best_category, confidence_score = confidence,
                          all_scores = category_scores, method_name = ''description_keywords''\<rparr>))"

fun content_keywords ::
  "weight_table \<Rightarrow> string \<Rightarrow> string \<Rightarrow> string list \<Rightarrow> rat \<times> string list \<times> int list
     \<Rightarrow> py_error + (rat \<times> string list \<times> int list)" where
  "content_keywords weights content_lower cat [] acc = Inr acc"
| "content_keywords weights content_lower cat (keyword # rest)
       (score, matched, keyword_positions) =
     (let occurrences = length (finditer_word keyword content_lower)
      in if occurrences > 0
         then (case get_weight weights cat keyword of
                 Inl e \<Rightarrow> Inl e
               | Inr weight \<Rightarrow>
                   content_keywords weights content_lower cat rest
                     (score + weight * of_nat occurrences, matched @ [keyword],
                      keyword_positions @ map int (finditer_word keyword content_lower)))
         else content_keywords weights content_lower cat rest
                (score, matched, keyword_positions))"

fun content_categories ::
  "weight_table \<Rightarrow> string \<Rightarrow> topic_categories \<Rightarrow> (string \<times> content_entry) list
     \<Rightarrow> py_error + (string \<times> content_entry) list" where
  "content_categories weights content_lower [] category_scores = Inr category_scores"
| "content_categories weights content_lower ((cat, keywords) # rest) category_scores =
     (if cat = ''general''
      then content_categories weights content_lower rest category_scores
      else (case content_keywords weights content_lower cat keywords (0.0, [], []) of
              Inl e \<Rightarrow> Inl e
            | Inr (score, matched, keyword_positions) \<Rightarrow>
                content_categories weights content_lower rest
                  (if score > 0
                   then let content_length = length content_lower;
                            density = (score / of_nat content_length) * 1000;
                            clustering =
                              calculate_clustering_bonus keyword_positions content_length;
                            final_score = score + density + clustering
                        in AList.update cat
                             \<lparr>c_score = final_score, base_score = score,
                              density_bonus = density, clustering_bonus = clustering,
                              c_matched_keywords = matched,
                              keyword_count = length matched\<rparr> category_scores
                   else category_scores)))"

definition classify_by_content ::
  "TopicClassifier \<Rightarrow> string \<Rightarrow> py_error + content_entry classification" where
  "classify_by_content self transcript_segment =
     (if transcript_segment = [] \<or> list_all isspace transcript_segment
      then Inr \<lparr>primary_category = ''general'', confidence_score = 0.0,
                all_scores = [], method_name = ''empty_content''\<rparr>
      else let content_lower = lower transcript_segment
      in case content_categories (category_weights self) content_lower (categories self) [] of
           Inl e \<Rightarrow> Inl e
         | Inr category_scores \<Rightarrow>
             Inr (case category_scores of
                    [] \<Rightarrow> \<lparr>primary_category = ''general'', confidence_score = 0.0,
                           all_scores = [], method_name = ''no_keywords_found''\<rparr>
                  | first # others \<Rightarrow>
                      let (best_category, best) = max_by (\<lambda>x. c_score (snd x)) first others;
                          max_score = c_score best;
                          keyword_diversity = length (c_matched_keywords best);
                          confidence =
                            min ((max_score / 10.0) * (1 + of_nat keyword_diversity * 0.1)) 1.0
                      in \<lparr>primary_category = best_category, confidence_score = confidence,
                          all_scores = category_scores, method_name = ''content_analysis''\<rparr>))"

record combined_classification =
  cc_primary_category :: string
  cc_confidence_score :: rat
  description_result :: "description_entry classification"
  content_result :: "content_entry classification"
  cc_method :: string
  clip_duration :: rat
  disagreement :: "bool option"

definition classify_combined ::
  "TopicClassifier \<Rightarrow> string \<Rightarrow> string \<Rightarrow> rat \<Rightarrow> rat
     \<Rightarrow> py_error + combined_classification" where
  "classify_combined self description transcript_segment start_time end_time =
     (case classify_by_description self description of
        Inl e \<Rightarrow> Inl e
      | Inr desc_result \<Rightarrow>
     (case classify_by_content self transcript_segment of
        Inl e \<Rightarrow> Inl e
      | Inr cont_result \<Rightarrow>
          Inr (if primary_category desc_result = primary_category cont_result
               then let combined_confidence =
                          min ((confidence_score desc_result + confidence_score cont_result)
                               / 1.5) 1.0
                    in \<lparr>cc_primary_category = primary_category desc_result,
                        cc_confidence_score = combined_confidence,
                        description_result = desc_result,
                        content_result = cont_result,
                        cc_method = ''combined_agreement'',
                        clip_duration = end_time - start_time,
                        disagreement = None\<rparr>
               else let (primary, primary_confidence, method_tag) =
                          (if confidence_score desc_result > confidence_score cont_result
                           then (primary_category desc_result, confidence_score desc_result,
                                 ''description_primary'')
                           else (primary_category cont_result, confidence_score cont_result,
                                 ''content_primary''));
                        adjusted_confidence = primary_confidence * 0.7
                    in \<lparr>cc_primary_category = primary,
                        cc_confidence_score = adjusted_confidence,
                        description_result = desc_result,
                        content_result = cont_result,
                        cc_method = method_tag,
                        clip_duration = end_time - start_time,
                        disagreement = Some True\<rparr>)))"

record combined_entry =
  description_score :: rat
  content_score :: rat
  combined_score :: rat

record suggestion =
  category :: string
  confidence :: rat
  sg_description_score :: rat
  sg_content_score :: rat

fun add_description_scores ::
  "(string \<times> description_entry) list \<Rightarrow> (string \<times> combined_entry) list
     \<Rightarrow> (string \<times> combined_entry) list" where
  "add_description_scores [] combined_scores = combined_scores"
| "add_description_scores ((cat, data) # rest) combined_scores =
     add_description_scores rest
       (AList.update cat
          \<lparr>description_score = d_score data, content_score = 0.0,
           combined_score = d_score data * 0.6\<rparr> combined_scores)"

fun add_content_scores ::
  "(string \<times> content_entry) list \<Rightarrow> (string \<times> combined_entry) list
     \<Rightarrow> (string \<times> combined_entry) list" where
  "add_content_scores [] combined_scores = combined_scores"
| "add_content_scores ((cat, data) # rest) combined_scores =
     add_content_scores rest
       (case map_of combined_scores cat of
          Some old \<Rightarrow>
            AList.update cat
              (old\<lparr>content_score := c_score data,
                   combined_score := combined_score old + c_score data * 0.8\<rparr>)
              combined_scores
        | None \<Rightarrow>
            AList.update cat
              \<lparr>description_score = 0.0, content_score = c_score data,
               combined_score = c_score data * 0.8\<rparr> combined_scores)"

definition to_suggestion :: "string \<times> combined_entry \<Rightarrow> suggestion" where
  "to_suggestion item =
     (case item of (cat, scores) \<Rightarrow>
        \<lparr>category = cat,
         confidence = min (combined_score scores / 10.0) 1.0,
         sg_description_score = description_score scores,
         sg_content_score = content_score scores\<rparr>)"

definition get_category_suggestions ::
  "TopicClassifier \<Rightarrow> string \<Rightarrow> string \<Rightarrow> py_error + suggestion list" where
  "get_category_suggestions self description transcript_segment =
     (case classify_by_description self description of
        Inl e \<Rightarrow> Inl e
      | Inr desc_result \<Rightarrow>
     (case classify_by_content self transcript_segment of
        Inl e \<Rightarrow> Inl e
      | Inr cont_result \<Rightarrow>
          let combined_scores =
                add_content_scores (all_scores cont_result)
                  (add_description_scores (all_scores desc_result) []);
              suggestions = map to_suggestion combined_scores;
              suggestions = sort_key (\<lambda>x. - confidence x) suggestions
          in Inr (take 3 suggestions)))"

section \<open>Definitions used in the statements and proofs\<close>

definition covers :: "weight_table \<Rightarrow> topic_categories \<Rightarrow> bool" where
  "covers weights cats = (\<forall>c \<in> fst ` set cats. c \<noteq> ''general'' \<longrightarrow> c \<in> fst ` set weights)"

definition d_positive :: "(string \<times> description_entry) list \<Rightarrow> bool" where
  "d_positive scores =
     (\<forall>item \<in> set scores. fst item \<noteq> ''general'' \<and> 0 < d_score (snd item))"

definition graded :: "'e classification \<Rightarrow> bool" where
  "graded r = (0 \<le> confidence_score r \<and> confidence_score r \<le> 1
     \<and> (primary_category r = ''general'' \<and> confidence_score r = 0
        \<or> primary_category r \<noteq> ''general'' \<and> 0 < confidence_score r))"

definition c_positive :: "(string \<times> content_entry) list \<Rightarrow> bool" where
  "c_positive scores =
     (\<forall>item \<in> set scores. fst item \<noteq> ''general'' \<and> 0 < c_score (snd item))"

definition fed_config :: topic_categories where
  "fed_config = [(''inflation'', [''inflation'', ''cpi'', ''prices'']),
                 (''fed'', [''federal reserve'', ''interest rate'', ''fed'']),
                 (''general'', [])]"

definition chatter :: string where
  "chatter = concat (replicate 124 ''talk on '')"

definition quiet_segment :: string where
  "quiet_segment = ''The Fed '' @ chatter"

definition quiet_lower :: string where
  "quiet_lower = ''the fed '' @ chatter"

definition combined_summary ::
  "combined_classification \<Rightarrow> string \<times> string \<times> rat \<times> rat \<times> rat" where
  "combined_summary r =
     (primary_category (description_result r), primary_category (content_result r),
      confidence_score (description_result r), confidence_score (content_result r),
      cc_confidence_score r)"

abbreviation desc_confidence :: "combined_classification \<Rightarrow> rat" where
  "desc_confidence r \<equiv> confidence_score (description_result r)"

abbreviation content_confidence :: "combined_classification \<Rightarrow> rat" where
  "content_confidence r \<equiv> confidence_score (content_result r)"

definition description_score_of ::
  "TopicClassifier \<Rightarrow> string \<Rightarrow> string \<Rightarrow> rat" where
  "description_score_of self description cat =
     (case classify_by_description self description of
        Inl e \<Rightarrow> 0
      | Inr r \<Rightarrow> (case map_of (all_scores r) cat of Some e \<Rightarrow> d_score e | None \<Rightarrow> 0))"

definition content_score_of ::
  "TopicClassifier \<Rightarrow> string \<Rightarrow> string \<Rightarrow> rat" where
  "content_score_of self segment cat =
     (case classify_by_content self segment of
        Inl e \<Rightarrow> 0
      | Inr r \<Rightarrow> (case map_of (all_scores r) cat of Some e \<Rightarrow> c_score e | None \<Rightarrow> 0))"

definition lookup_d :: "(string \<times> description_entry) list \<Rightarrow> string \<Rightarrow> rat" where
  "lookup_d ds c = (case map_of ds c of Some e \<Rightarrow> d_score e | None \<Rightarrow> 0)"

definition lookup_c :: "(string \<times> content_entry) list \<Rightarrow> string \<Rightarrow> rat" where
  "lookup_c cs c = (case map_of cs c of Some e \<Rightarrow> c_score e | None \<Rightarrow> 0)"

subsection \<open>Regular expressions\<close>

datatype atom = Chr char | Digit | Space | AnyChar

fun atom_match :: "atom \<Rightarrow> char \<Rightarrow> bool" where
  "atom_match (Chr c) x = (lower_char x = lower_char c)"
| "atom_match Digit x = (x \<in> set ''0123456789'')"
| "atom_match Space x = isspace x"
| "atom_match AnyChar x = True"

datatype regex =
    Atom atom
  | Eps
  | Seq regex regex
  | Alt regex regex
  | Opt regex
  | Star atom
  | Plus atom
  | LazyPlus atom
  | Group regex
  | Lookahead regex
  | EndOfString

type_synonym match_state = "string list \<times> string"

definition run_length :: "atom \<Rightarrow> string \<Rightarrow> nat" where
  "run_length a s = length (takeWhile (atom_match a) s)"

fun run :: "regex \<Rightarrow> match_state \<Rightarrow> match_state list" where
  "run (Atom a) (g, s) =
     (case s of [] \<Rightarrow> [] | c # cs \<Rightarrow> if atom_match a c then [(g, cs)] else [])"
| "run Eps st = [st]"
| "run (Seq r1 r2) st = concat (map (run r2) (run r1 st))"
| "run (Alt r1 r2) st = run r1 st @ run r2 st"
| "run (Opt r) st = run r st @ [st]"
| "run (Star a) (g, s) = map (\<lambda>n. (g, drop n s)) (rev [0..<Suc (run_length a s)])"
| "run (Plus a) (g, s) = map (\<lambda>n. (g, drop n s)) (rev [1..<Suc (run_length a s)])"
| "run (LazyPlus a) (g, s) = map (\<lambda>n. (g, drop n s)) [1..<Suc (run_length a s)]"
| "run (Group r) (g, s) =
     map (\<lambda>(g', s'). (g' @ [take (length s - length s') s], s')) (run r (g, s))"
| "run (Lookahead r) st = (if run r st = [] then [] else [st])"
| "run EndOfString (g, s) = (if s = [] \<or> s = [CHR 0x0A] then [(g, s)] else [])"

fun search :: "regex \<Rightarrow> string \<Rightarrow> string list option" where
  "search r [] = (case run r ([], []) of [] \<Rightarrow> None | (g, rest) # others \<Rightarrow> Some g)"
| "search r (c # cs) =
     (case run r ([], c # cs) of [] \<Rightarrow> search r cs | (g, rest) # others \<Rightarrow> Some g)"

definition lit :: "string \<Rightarrow> regex" where
  "lit s = foldr (\<lambda>c r. Seq (Atom (Chr c)) r) s Eps"

definition number :: regex where
  "number = Seq (Plus Digit) (Seq (Opt (Atom (Chr CHR ''.''))) (Star Digit))"

definition start_pattern :: regex where
  "start_pattern =
     Seq (lit ''START_TIME:'') (Seq (Star Space) (Group (Alt number (lit ''NOT_FOUND''))))"

definition end_pattern :: regex where
  "end_pattern =
     Seq (lit ''END_TIME:'') (Seq (Star Space) (Group (Alt number (lit ''NOT_FOUND''))))"

definition seconds_unit :: regex where
  "seconds_unit = Alt (Seq (lit ''second'') (Opt (Atom (Chr CHR ''s'')))) (lit ''s'')"

definition timestamp_patterns :: regex where
  "timestamp_patterns =
     Seq (Group number) (Seq (Star Space) (Seq seconds_unit (Seq (Star Space)
       (Seq (Opt (Alt (lit ''to'') (lit ''-''))) (Seq (Star Space)
         (Seq (Group number) (Seq (Star Space) seconds_unit)))))))"

subsection \<open>Clip finder\<close>

definition upper_char :: "char \<Rightarrow> char" where
  "upper_char c =
     (case map_of (zip lower_letters upper_letters) c of Some u \<Rightarrow> u | None \<Rightarrow> c)"

definition upper :: "string \<Rightarrow> string" where
  "upper s = map upper_char s"

definition strip :: "string \<Rightarrow> string" where
  "strip s = rev (dropWhile isspace (rev (dropWhile isspace s)))"

definition digit_value :: "char \<Rightarrow> nat" where
  "digit_value c = code_point c - 48"

definition digits_value :: "string \<Rightarrow> nat" where
  "digits_value ds = foldl (\<lambda>n c. 10 * n + digit_value c) 0 ds"

definition is_digit :: "char \<Rightarrow> bool" where
  "is_digit c = atom_match Digit c"

definition to_float :: "string \<Rightarrow> rat option" where
  "to_float s =
     (let whole = takeWhile is_digit s; rest = dropWhile is_digit s
      in if whole = [] then None
         else if rest = [] then Some (of_nat (digits_value whole))
         else if hd rest = CHR ''.'' \<and> list_all is_digit (tl rest)
         then Some (of_nat (digits_value whole)
                    + of_nat (digits_value (tl rest)) / 10 ^ length (tl rest))
         else None)"

definition group :: "string list \<Rightarrow> nat \<Rightarrow> string" where
  "group g n = g ! (n - 1)"

text \<open>
  \<^verbatim>\<open>_parse_timestamp_response\<close>. The result \<^verbatim>\<open>(None, None)\<close> is \<^const>\<open>None\<close>, a
  pair of numbers is \<^const>\<open>Some\<close>. \<open>strict_pair\<close> is the body of
  \<^verbatim>\<open>if start_match and end_match:\<close> on the two captured strings, with the inner
  \<^verbatim>\<open>except ValueError\<close>; \<open>fallback_pair\<close> is the block after it. The outer
  \<^verbatim>\<open>except Exception\<close> catches what \<^verbatim>\<open>re.search\<close> raises on an argument that
  is not a string; on a string nothing in the body raises.
\<close>

definition strict_pair :: "string \<Rightarrow> string \<Rightarrow> (rat \<times> rat) option" where
  "strict_pair start_str end_str =
     (if upper start_str = ''NOT_FOUND'' \<or> upper end_str = ''NOT_FOUND'' then None
      else (case (to_float start_str, to_float end_str) of
              (Some start_time, Some end_time) \<Rightarrow>
                if end_time \<le> start_time then None else Some (start_time, end_time)
            | _ \<Rightarrow> None))"

definition fallback_pair :: "string \<Rightarrow> (rat \<times> rat) option" where
  "fallback_pair response_text =
     (case search timestamp_patterns response_text of
        Some g \<Rightarrow>
          (case (to_float (group g 1), to_float (group g 2)) of
             (Some start_time, Some end_time) \<Rightarrow>
               if end_time > start_time then Some (start_time, end_time) else None
           | _ \<Rightarrow> None)
      | None \<Rightarrow> None)"

definition parse_timestamp_response :: "string \<Rightarrow> (rat \<times> rat) option" where
  "parse_timestamp_response response_text =
     (let start_match = search start_pattern response_text;
          end_match = search end_pattern response_text
      in case (start_match, end_match) of
           (Some sg, Some eg) \<Rightarrow> strict_pair (group sg 1) (group eg 1)
         | _ \<Rightarrow> fallback_pair response_text)"

datatype failure = APIError string | OtherException string

datatype clip_error = ClipExtractionError string

datatype query = ClipQuery string string | ImprovementQuery string rat rat

type_synonym 'w client = "query \<Rightarrow> 'w \<Rightarrow> (failure + string) \<times> 'w"

record 'w find_outcome =
  outcome :: "clip_error + (rat \<times> rat) option"
  duration_warning :: bool
  world :: 'w

definition find_clip_timestamps ::
  "(rat \<Rightarrow> bool) \<Rightarrow> 'w client \<Rightarrow> string \<Rightarrow> string \<Rightarrow> 'w \<Rightarrow> 'w find_outcome" where
  "find_clip_timestamps validate_clip_duration client transcription clip_description w =
     (case client (ClipQuery transcription clip_description) w of
        (Inl (APIError e), w') \<Rightarrow>
          \<lparr>outcome = Inl (ClipExtractionError (''OpenAI API error: '' @ e)),
           duration_warning = False, world = w'\<rparr>
      | (Inl (OtherException e), w') \<Rightarrow>
          \<lparr>outcome = Inl (ClipExtractionError (''Clip finding failed: '' @ e)),
           duration_warning = False, world = w'\<rparr>
      | (Inr content, w') \<Rightarrow>
          (case parse_timestamp_response content of
             Some (start_time, end_time) \<Rightarrow>
               let duration = end_time - start_time
               in \<lparr>outcome = Inr (Some (start_time, end_time)),
                   duration_warning = (\<not> validate_clip_duration duration), world = w'\<rparr>
           | None \<Rightarrow> \<lparr>outcome = Inr None, duration_warning = False, world = w'\<rparr>))"

record clip_item =
  item_description :: string
  item_start_time :: "rat option"
  item_end_time :: "rat option"
  item_duration :: "rat option"
  item_success :: bool
  item_error :: "string option"

definition truthy :: "rat option \<Rightarrow> bool" where
  "truthy x = (case x of None \<Rightarrow> False | Some v \<Rightarrow> v \<noteq> 0)"

definition str_of_error :: "clip_error \<Rightarrow> string" where
  "str_of_error e = (case e of ClipExtractionError m \<Rightarrow> m)"

definition clip_item_of :: "string \<Rightarrow> clip_error + (rat \<times> rat) option \<Rightarrow> clip_item" where
  "clip_item_of clip_description found =
     (case found of
        Inl e \<Rightarrow>
          \<lparr>item_description = clip_description, item_start_time = None, item_end_time = None,
           item_duration = None, item_success = False, item_error = Some (str_of_error e)\<rparr>
      | Inr timestamps \<Rightarrow>
          let start_time = map_option fst timestamps; end_time = map_option snd timestamps
          in \<lparr>item_description = clip_description, item_start_time = start_time,
              item_end_time = end_time,
              item_duration = (if truthy start_time \<and> truthy end_time
                               then Some (the end_time - the start_time) else None),
              item_success = (start_time \<noteq> None \<and> end_time \<noteq> None),
              item_error = None\<rparr>)"

fun find_multiple_clips ::
  "(rat \<Rightarrow> bool) \<Rightarrow> 'w client \<Rightarrow> string \<Rightarrow> string list \<Rightarrow> 'w \<Rightarrow> clip_item list \<times> 'w" where
  "find_multiple_clips validate_clip_duration client transcription [] w = ([], w)"
| "find_multiple_clips validate_clip_duration client transcription (d # ds) w =
     (let found = find_clip_timestamps validate_clip_duration client transcription d w;
          (results, w') =
             find_multiple_clips validate_clip_duration client transcription ds (world found)
      in (clip_item_of d (outcome found) # results, w'))"

definition echo :: "string \<Rightarrow> unit client" where
  "echo txt = (\<lambda>q w. (Inr txt, w))"

definition suggested_start_pattern :: regex where
  "suggested_start_pattern =
     Seq (lit ''SUGGESTED_START:'')
       (Seq (Star Space) (Group (Alt number (lit ''KEEP_CURRENT''))))"

definition suggested_end_pattern :: regex where
  "suggested_end_pattern =
     Seq (lit ''SUGGESTED_END:'')
       (Seq (Star Space) (Group (Alt number (lit ''KEEP_CURRENT''))))"

definition reason_pattern :: regex where
  "reason_pattern =
     Seq (lit ''IMPROVEMENT_REASON:'')
       (Seq (Star Space)
         (Seq (Group (LazyPlus AnyChar))
              (Lookahead (Alt (Atom (Chr (CHR 0x0A))) EndOfString))))"

definition confidence_pattern :: regex where
  "confidence_pattern =
     Seq (lit ''CONFIDENCE:'')
       (Seq (Star Space) (Group (Alt (lit ''HIGH'') (Alt (lit ''MEDIUM'') (lit ''LOW'')))))"

record improvement =
  suggested_start :: rat
  suggested_end :: rat
  improvement_reason :: string
  improvement_confidence :: string
  changed :: "bool option"

definition suggested_time :: "string list option \<Rightarrow> rat \<Rightarrow> rat" where
  "suggested_time found original =
     (case found of
        Some g \<Rightarrow>
          if upper (group g 1) = ''KEEP_CURRENT'' then original
          else (case to_float (group g 1) of Some v \<Rightarrow> v | None \<Rightarrow> original)
      | None \<Rightarrow> original)"

definition parse_improvement_response :: "string \<Rightarrow> rat \<Rightarrow> rat \<Rightarrow> improvement" where
  "parse_improvement_response response_text original_start original_end =
     (let start_match = search suggested_start_pattern response_text;
          end_match = search suggested_end_pattern response_text;
          reason_match = search reason_pattern response_text;
          confidence_match = search confidence_pattern response_text;
          new_start = suggested_time start_match original_start;
          new_end = suggested_time end_match original_end
      in \<lparr>suggested_start = new_start,
          suggested_end = new_end,
          improvement_reason =
            (case reason_match of Some g \<Rightarrow> strip (group g 1)
             | None \<Rightarrow> ''No specific improvements suggested''),
          improvement_confidence =
            (case confidence_match of Some g \<Rightarrow> upper (group g 1) | None \<Rightarrow> ''MEDIUM''),
          changed = Some (new_start \<noteq> original_start \<or> new_end \<noteq> original_end)\<rparr>)"

definition suggest_clip_improvements ::
  "'w client \<Rightarrow> string \<Rightarrow> rat \<Rightarrow> rat \<Rightarrow> 'w \<Rightarrow> improvement \<times> 'w" where
  "suggest_clip_improvements client transcription start_time end_time w =
     (case client (ImprovementQuery transcription start_time end_time) w of
        (Inl e, w') \<Rightarrow>
          (\<lparr>suggested_start = start_time, suggested_end = end_time,
            improvement_reason = ''Could not analyze improvements'',
            improvement_confidence = ''LOW'', changed = None\<rparr>, w')
      | (Inr content, w') \<Rightarrow>
          (parse_improvement_response content start_time end_time, w'))"

definition failing :: "unit client" where
  "failing = (\<lambda>q w. (Inl (APIError ''service unavailable''), w))"

text \<open>The answers of the service to the queries of a batch, in the order of the calls.\<close>

fun answers :: "'w client \<Rightarrow> string \<Rightarrow> string list \<Rightarrow> 'w \<Rightarrow> (failure + string) list" where
  "answers client transcription [] w = []"
| "answers client transcription (d # ds) w =
     (case client (ClipQuery transcription d) w of
        (a, w') \<Rightarrow> a # answers client transcription ds w')"

definition found_of :: "failure + string \<Rightarrow> clip_error + (rat \<times> rat) option" where
  "found_of answer =
     (case answer of
        Inl (APIError e) \<Rightarrow> Inl (ClipExtractionError (''OpenAI API error: '' @ e))
      | Inl (OtherException e) \<Rightarrow> Inl (ClipExtractionError (''Clip finding failed: '' @ e))
      | Inr content \<Rightarrow> Inr (parse_timestamp_response content))"

definition flaky :: "nat client" where
  "flaky = (\<lambda>q n. (if n = 1 then Inl (APIError ''timeout'')
                     else Inr ''START_TIME: 10 END_TIME: 40'', n + 1))"

definition runs_text :: string where
  "runs_text = ''the clip runs from 12.5 seconds to 45.0 seconds''"

definition both_text :: string where
  "both_text = ''START_TIME: 50 END_TIME: 40, i.e. 40 seconds to 50 seconds''"

section \<open>Properties\<close>

subsection \<open>Clustering bonus\<close>

lemma adjacent_pairs_snoc:
  "xs \<noteq> [] \<Longrightarrow> adjacent_pairs (xs @ [x]) = adjacent_pairs xs @ [(last xs, x)]"
  by (induction xs rule: adjacent_pairs.induct) auto

lemma clustering_loop_is_sum:
  "fold (\<lambda>i acc. let distance = ps ! i - ps ! (i - 1)
                  in if distance \<le> 100 then acc + (100 - of_int distance) / 100 else acc)
        [1..<length ps] (0::rat)
   = sum_list (map (\<lambda>(a, b). pair_bonus (b - a)) (adjacent_pairs ps))"
proof (induction ps rule: rev_induct)
  case Nil
  show ?case by simp
next
  case (snoc x xs)
  show ?case
  proof (cases "xs = []")
    case True
    then show ?thesis by simp
  next
    case False
    then have len: "1 \<le> length xs" by (cases xs) auto
    have up: "[1..<length (xs @ [x])] = [1..<length xs] @ [length xs]"
      using len by simp
    have same: "fold (\<lambda>i acc. let distance = (xs @ [x]) ! i - (xs @ [x]) ! (i - 1)
                  in if distance \<le> 100 then acc + (100 - of_int distance) / 100 else acc)
        [1..<length xs] (0::rat) =
        fold (\<lambda>i acc. let distance = xs ! i - xs ! (i - 1)
                  in if distance \<le> 100 then acc + (100 - of_int distance) / 100 else acc)
        [1..<length xs] (0::rat)"
      by (rule fold_cong) (auto simp: nth_append)
    have lastx: "(xs @ [x]) ! (length xs - 1) = last xs"
      using False by (simp add: nth_append last_conv_nth)
    show ?thesis
      unfolding up fold_append comp_def same snoc.IH
      using False lastx
      by (simp add: adjacent_pairs_snoc pair_bonus_def Let_def)
  qed
qed

lemma clustering_bonus_refines_spec:
  "calculate_clustering_bonus ps n = clustering_bonus_spec ps"
proof (cases "length ps < 2")
  case True
  then have "ps = [] \<or> (\<exists>a. ps = [a])" by (cases ps; cases "tl ps") auto
  then show ?thesis
    by (auto simp: calculate_clustering_bonus_def clustering_bonus_spec_def)
next
  case False
  then show ?thesis
    using clustering_loop_is_sum [of "sort ps"]
    by (simp add: calculate_clustering_bonus_def clustering_bonus_spec_def Let_def)
qed

text \<open>
  C8. For every list of positions the bonus computed by the loop is the sum, over the
  adjacent pairs of the ascending sort, of the pair contribution
  \<open>(100 - distance)/100\<close> for distances of at most 100 and nothing beyond; fewer than two
  positions give 0; the contribution of one pair does not increase with its distance up
  to 100 and is exactly zero beyond 100.
\<close>

theorem clustering_bonus_adjacent_pairs:
  "calculate_clustering_bonus ps n = clustering_bonus_spec ps
   \<and> (length qs < 2 \<longrightarrow> calculate_clustering_bonus qs m = 0)
   \<and> (d1 \<le> d2 \<and> d2 \<le> 100 \<longrightarrow> pair_bonus d2 \<le> pair_bonus d1)
   \<and> (100 < d3 \<longrightarrow> pair_bonus d3 = 0)"
proof -
  have "d1 \<le> d2 \<and> d2 \<le> 100 \<longrightarrow> pair_bonus d2 \<le> pair_bonus d1"
    by (simp add: pair_bonus_def divide_le_cancel)
  moreover have "100 < d3 \<longrightarrow> pair_bonus d3 = 0"
    by (simp add: pair_bonus_def)
  moreover have "length qs < 2 \<longrightarrow> calculate_clustering_bonus qs m = 0"
    by (simp add: calculate_clustering_bonus_def)
  ultimately show ?thesis
    using clustering_bonus_refines_spec [of ps n] by blast
qed

theorem clustering_bonus_adjacent_pairs_witness:
  "calculate_clustering_bonus [250, 10, 40, 40] 300 = 17 / 10
   \<and> clustering_bonus_spec [250, 10, 40, 40] = 17 / 10
   \<and> length [7::int] < 2 \<and> calculate_clustering_bonus [7] 20 = 0
   \<and> (10::int) \<le> 50 \<and> (50::int) \<le> 100 \<and> pair_bonus 50 \<le> pair_bonus 10
   \<and> (100::int) < 150 \<and> pair_bonus 150 = 0"
proof -
  have run: "calculate_clustering_bonus [250, 10, 40, 40] 300 = 17 / 10"
    by (simp add: calculate_clustering_bonus_def Let_def upt_rec)
  show ?thesis
    using clustering_bonus_adjacent_pairs [of "[250, 10, 40, 40]" 300 "[7]" 20 10 50 150] run
    by simp
qed

lemma pair_bonus_nonneg: "0 \<le> pair_bonus d"
  by (simp add: pair_bonus_def)

lemma clustering_bonus_nonneg: "0 \<le> calculate_clustering_bonus ps n"
  unfolding clustering_bonus_refines_spec clustering_bonus_spec_def
  by (rule sum_list_nonneg) (auto simp: pair_bonus_nonneg)

subsection \<open>The weight table has every scored category\<close>

lemma calculate_category_weights_keys:
  "fst ` set (calculate_category_weights cats weights)
     = fst ` set weights \<union> {c \<in> fst ` set cats. c \<noteq> ''general''}"
  by (induction cats weights rule: calculate_category_weights.induct)
     (auto simp: dom_update)

lemma init_covers: "covers (category_weights (init cats)) (categories (init cats))"
  by (simp add: covers_def init_def calculate_category_weights_keys)

lemma covers_Cons:
  "covers weights ((c, kws) # rest) \<Longrightarrow> covers weights rest"
  "covers weights ((c, kws) # rest) \<Longrightarrow> c \<noteq> ''general'' \<Longrightarrow> c \<in> fst ` set weights"
  by (auto simp: covers_def)

lemma get_weight_defined:
  "c \<in> fst ` set weights \<Longrightarrow> \<exists>w. get_weight weights c k = Inr w"
  by (cases "map_of weights c") (auto simp: get_weight_def map_of_eq_None_iff)

lemma set_update_subset: "set (AList.update k v al) \<subseteq> insert (k, v) (set al)"
  by (induction al) auto

subsection \<open>Classification by description\<close>

lemma description_keywords_defined:
  "c \<in> fst ` set weights \<Longrightarrow> \<exists>r. description_keywords weights dl c kws acc = Inr r"
proof (induction kws arbitrary: acc)
  case Nil
  then show ?case by simp
next
  case (Cons k kws)
  obtain s m where acc: "acc = (s, m)" by (cases acc)
  obtain w where w: "get_weight weights c k = Inr w"
    using get_weight_defined [OF Cons.prems] by blast
  show ?case
    using Cons.IH [OF Cons.prems] by (simp add: acc w)
qed

lemma d_positive_update:
  "d_positive scores \<Longrightarrow> c \<noteq> ''general'' \<Longrightarrow> 0 < d_score e
     \<Longrightarrow> d_positive (AList.update c e scores)"
  using set_update_subset [of c e scores] by (fastforce simp: d_positive_def)

lemma description_categories_defined:
  "covers weights cats \<Longrightarrow> d_positive acc
     \<Longrightarrow> \<exists>r. description_categories weights dl cats acc = Inr r \<and> d_positive r"
proof (induction cats arbitrary: acc)
  case Nil
  then show ?case by simp
next
  case (Cons item cats)
  obtain c kws where item: "item = (c, kws)" by (cases item)
  have rest: "covers weights cats" using Cons.prems(1) covers_Cons(1) item by blast
  show ?case
  proof (cases "c = ''general''")
    case True
    then show ?thesis using Cons.IH [OF rest Cons.prems(2)] by (simp add: item)
  next
    case False
    then have "c \<in> fst ` set weights" using Cons.prems(1) covers_Cons(2) item by blast
    then obtain s m where km: "description_keywords weights dl c kws (0, []) = Inr (s, m)"
      using description_keywords_defined by (metis surj_pair)
    show ?thesis
    proof (cases "0 < s")
      case True
      have "d_positive (AList.update c \<lparr>d_score = s, d_matched_keywords = m\<rparr> acc)"
        using Cons.prems(2) False True by (simp add: d_positive_update)
      from Cons.IH [OF rest this] show ?thesis using False True by (simp add: item km)
    next
      case neg: False
      from Cons.IH [OF rest Cons.prems(2)] show ?thesis using False neg by (simp add: item km)
    qed
  qed
qed

lemma max_by_mem: "max_by f b xs \<in> set (b # xs)"
  by (induction xs arbitrary: b) (auto split: if_splits)

lemma classify_by_description_graded:
  "\<exists>r. classify_by_description (init cats) description = Inr r \<and> graded r"
proof -
  have "\<exists>r. description_categories (category_weights (init cats)) (lower description)
           (categories (init cats)) [] = Inr r \<and> d_positive r"
    by (rule description_categories_defined [OF init_covers]) (simp add: d_positive_def)
  then obtain scores where
    sc: "description_categories (category_weights (init cats)) (lower description)
           (categories (init cats)) [] = Inr scores"
    and pos: "d_positive scores"
    by blast
  show ?thesis
  proof (cases scores)
    case Nil
    then show ?thesis by (simp add: classify_by_description_def sc graded_def)
  next
    case (Cons first others)
    obtain bc be where best: "max_by (\<lambda>x. d_score (snd x)) first others = (bc, be)"
      by (cases "max_by (\<lambda>x. d_score (snd x)) first others")
    have "(bc, be) \<in> set scores"
      using max_by_mem [of "\<lambda>x. d_score (snd x)" first others] by (simp add: best Cons)
    then have "bc \<noteq> ''general''" "0 < d_score be"
      using pos by (auto simp: d_positive_def)
    then show ?thesis
      by (simp add: classify_by_description_def sc Cons best graded_def)
  qed
qed

subsection \<open>Classification by content\<close>

lemma content_keywords_defined:
  "c \<in> fst ` set weights \<Longrightarrow> \<exists>r. content_keywords weights cl c kws acc = Inr r"
proof (induction kws arbitrary: acc)
  case Nil
  obtain s m ps where "acc = (s, m, ps)" using prod_cases3 by blast
  then show ?case by simp
next
  case (Cons k kws)
  obtain s m ps where acc: "acc = (s, m, ps)" using prod_cases3 by blast
  obtain w where w: "get_weight weights c k = Inr w"
    using get_weight_defined [OF Cons.prems] by blast
  show ?case
    using Cons.IH [OF Cons.prems] by (simp add: acc w Let_def)
qed

lemma c_positive_update:
  "c_positive scores \<Longrightarrow> c \<noteq> ''general'' \<Longrightarrow> 0 < c_score e
     \<Longrightarrow> c_positive (AList.update c e scores)"
  using set_update_subset [of c e scores] by (fastforce simp: c_positive_def)

lemma final_score_positive:
  fixes s :: rat
  assumes "0 < s"
  shows "0 < s + s / of_nat n * 1000 + calculate_clustering_bonus ps n"
proof -
  have "0 \<le> s / of_nat n * 1000" using assms by simp
  then show ?thesis using assms clustering_bonus_nonneg [of ps n] by linarith
qed

lemma content_categories_defined:
  "covers weights cats \<Longrightarrow> c_positive acc
     \<Longrightarrow> \<exists>r. content_categories weights cl cats acc = Inr r \<and> c_positive r"
proof (induction cats arbitrary: acc)
  case Nil
  then show ?case by simp
next
  case (Cons item cats)
  obtain c kws where item: "item = (c, kws)" by (cases item)
  have rest: "covers weights cats" using Cons.prems(1) covers_Cons(1) item by blast
  show ?case
  proof (cases "c = ''general''")
    case True
    then show ?thesis using Cons.IH [OF rest Cons.prems(2)] by (simp add: item)
  next
    case False
    then have "c \<in> fst ` set weights" using Cons.prems(1) covers_Cons(2) item by blast
    then obtain s m ps where
      km: "content_keywords weights cl c kws (0, [], []) = Inr (s, m, ps)"
      using content_keywords_defined by (metis surj_pair)
    show ?thesis
    proof (cases "0 < s")
      case True
      let ?e = "\<lparr>c_score = s + s / of_nat (length cl) * 1000
                    + calculate_clustering_bonus ps (length cl),
                 base_score = s, density_bonus = s / of_nat (length cl) * 1000,
                 clustering_bonus = calculate_clustering_bonus ps (length cl),
                 c_matched_keywords = m, keyword_count = length m\<rparr>"
      have "c_positive (AList.update c ?e acc)"
        using Cons.prems(2) False final_score_positive [OF True]
        by (simp add: c_positive_update)
      from Cons.IH [OF rest this] show ?thesis
        using False True by (simp add: item km Let_def)
    next
      case neg: False
      from Cons.IH [OF rest Cons.prems(2)] show ?thesis using False neg by (simp add: item km)
    qed
  qed
qed

lemma classify_by_content_graded:
  "\<exists>r. classify_by_content (init cats) segment = Inr r \<and> graded r"
proof (cases "segment = [] \<or> list_all isspace segment")
  case True
  then show ?thesis by (auto simp: classify_by_content_def graded_def)
next
  case False
  have "\<exists>r. content_categories (category_weights (init cats)) (lower segment)
           (categories (init cats)) [] = Inr r \<and> c_positive r"
    by (rule content_categories_defined [OF init_covers]) (simp add: c_positive_def)
  then obtain scores where
    sc: "content_categories (category_weights (init cats)) (lower segment)
           (categories (init cats)) [] = Inr scores"
    and pos: "c_positive scores"
    by blast
  show ?thesis
  proof (cases scores)
    case Nil
    then show ?thesis using False by (simp add: classify_by_content_def sc graded_def)
  next
    case (Cons first others)
    obtain bc be where best: "max_by (\<lambda>x. c_score (snd x)) first others = (bc, be)"
      by (cases "max_by (\<lambda>x. c_score (snd x)) first others")
    have "(bc, be) \<in> set scores"
      using max_by_mem [of "\<lambda>x. c_score (snd x)" first others] by (simp add: best Cons)
    then have b: "bc \<noteq> ''general''" "0 < c_score be"
      using pos by (auto simp: c_positive_def)
    have "0 < c_score be / 10 * (1 + of_nat (length (c_matched_keywords be)) * (1 / 10))"
      using b(2) by (simp add: zero_less_mult_iff add_pos_nonneg)
    then show ?thesis
      using False b by (simp add: classify_by_content_def sc Cons best graded_def Let_def)
  qed
qed

lemma init_fed_config:
  "init fed_config =
     \<lparr>categories = fed_config,
      category_weights =
        [(''inflation'', [(''inflation'', 1), (''cpi'', 2), (''prices'', 1)]),
         (''fed'', [(''federal reserve'', 3), (''interest rate'', 3), (''fed'', 1)])]\<rparr>"
  by code_simp

lemma set_chatter: "set chatter = set ''talk on ''"
  unfolding chatter_def set_concat set_replicate_conv_if by simp

lemma length_chatter: "length chatter = 992"
  unfolding chatter_def length_concat map_replicate sum_list_replicate by simp

lemma description_fed:
  "classify_by_description (init fed_config) ''The Federal Reserve raised interest rate''
   = Inr \<lparr>primary_category = ''fed'', confidence_score = 1,
           all_scores = [(''fed'', \<lparr>d_score = 7, d_matched_keywords =
                           [''federal reserve'', ''interest rate'', ''fed'']\<rparr>)],
           method_name = ''description_keywords''\<rparr>"
  by code_simp

lemma lower_chatter: "lower chatter = chatter"
proof -
  have "map lower_char ''talk on '' = ''talk on ''"
    by (simp add: lower_char_def upper_letters_def lower_letters_def)
  then show ?thesis
    unfolding chatter_def lower_def map_concat map_replicate by simp
qed

lemma lower_quiet_segment: "lower quiet_segment = ''the fed '' @ chatter"
proof -
  have "lower ''The Fed '' = ''the fed ''"
    by (simp add: lower_def lower_char_def upper_letters_def lower_letters_def)
  then show ?thesis
    using lower_chatter by (simp add: quiet_segment_def lower_def)
qed

lemma finditer_from_no_first:
  "k \<noteq> [] \<Longrightarrow> hd k \<notin> set s \<Longrightarrow> finditer_from k skip prev pos s = []"
proof (induction s arbitrary: skip prev pos)
  case Nil
  then show ?case by (cases k) (auto simp: keyword_at_def)
next
  case (Cons c cs)
  then show ?case by (cases k) (auto simp: keyword_at_def)
qed

lemmas scan_defs = finditer_word_def keyword_at_def word_boundary_def is_word_def head_opt_def
  is_word_char_def code_point_def

lemma finditer_quiet1:
  "finditer_word ''inflation'' (''the fed '' @ chatter) = []"
  by (simp add: scan_defs finditer_from_no_first set_chatter)

lemma finditer_quiet:
  "finditer_word ''cpi'' (''the fed '' @ chatter) = []"
  "finditer_word ''prices'' (''the fed '' @ chatter) = []"
  "finditer_word ''federal reserve'' (''the fed '' @ chatter) = []"
  "finditer_word ''interest rate'' (''the fed '' @ chatter) = []"
  "finditer_word ''fed'' (''the fed '' @ chatter) = [4]"
  by (simp_all add: scan_defs finditer_from_no_first set_chatter)

lemma not_blank: "\<not> (quiet_segment = [] \<or> list_all isspace quiet_segment)"
  by (simp add: quiet_segment_def isspace_def code_point_def)

lemma lower_quiet: "lower quiet_segment = quiet_lower"
  by (simp add: lower_quiet_segment quiet_lower_def)

lemma finditer_quiet_lower:
  "finditer_word ''inflation'' quiet_lower = []"
  "finditer_word ''cpi'' quiet_lower = []"
  "finditer_word ''prices'' quiet_lower = []"
  "finditer_word ''federal reserve'' quiet_lower = []"
  "finditer_word ''interest rate'' quiet_lower = []"
  "finditer_word ''fed'' quiet_lower = [4]"
  unfolding quiet_lower_def by (rule finditer_quiet1 finditer_quiet)+

lemma length_quiet_lower: "length quiet_lower = 1000"
  by (simp add: quiet_lower_def length_chatter)

lemma content_scores_quiet:
  "content_categories (category_weights (init fed_config)) quiet_lower
     (categories (init fed_config)) []
   = Inr [(''fed'', \<lparr>c_score = 2, base_score = 1, density_bonus = 1,
                      clustering_bonus = 0, c_matched_keywords = [''fed''],
                      keyword_count = 1\<rparr>)]"
  unfolding init_fed_config
  by (simp add: fed_config_def finditer_quiet_lower get_weight_def
        length_quiet_lower calculate_clustering_bonus_def)

lemma content_quiet:
  "classify_by_content (init fed_config) quiet_segment
   = Inr \<lparr>primary_category = ''fed'', confidence_score = 11 / 50,
           all_scores = [(''fed'', \<lparr>c_score = 2, base_score = 1, density_bonus = 1,
                           clustering_bonus = 0, c_matched_keywords = [''fed''],
                           keyword_count = 1\<rparr>)],
           method_name = ''content_analysis''\<rparr>"
  unfolding classify_by_content_def
  using not_blank
  by (simp add: lower_quiet content_scores_quiet)

text \<open>
  The agreement boost does not reach the higher sub-confidence in general: a description
  with confidence 1 and a long segment naming the same category once (content confidence
  11/50) combine to 61/75.
\<close>

theorem agreement_boost_counterexample:
  "map_sum id combined_summary
     (classify_combined (init fed_config) ''The Federal Reserve raised interest rate''
        quiet_segment 0 60)
   = Inr (''fed'', ''fed'', 1, 11 / 50, 61 / 75)"
  by (simp add: classify_combined_def description_fed content_quiet combined_summary_def)

lemma classify_combined_shape:
  assumes "classify_by_description self description = Inr dr"
    and "classify_by_content self segment = Inr cr"
  shows "\<exists>r. classify_combined self description segment start_time end_time = Inr r
     \<and> description_result r = dr \<and> content_result r = cr
     \<and> cc_confidence_score r =
         (if primary_category dr = primary_category cr
          then min ((confidence_score dr + confidence_score cr) / 1.5) 1
          else max (confidence_score dr) (confidence_score cr) * 0.7)"
  using assms by (simp add: classify_combined_def max_def)

lemma agreement_arith:
  fixes d c :: rat
  assumes "0 \<le> d" "d \<le> 1" "0 \<le> c" "c \<le> 1"
  shows "min d c \<le> min ((d + c) / 1.5) 1"
    and "max d c \<le> 2 * min d c \<Longrightarrow> max d c \<le> min ((d + c) / 1.5) 1"
  using assms by (auto simp: min_def max_def field_simps)

text \<open>
  C4 (as amended). For every category table, description and transcript segment,
  \<open>classify_combined\<close> on the classifier built from the table returns a result (no
  lookup fails). When the two classifications agree on the primary category, the combined
  confidence is \<open>min((descConf + contentConf)/1.5, 1)\<close>; it is at least the lower of the
  two sub-confidences, and at least the higher one whenever the higher is at most twice the
  lower. When they disagree, the combined confidence is 0.7 times the higher
  sub-confidence and strictly below it.
\<close>

theorem classify_combined_confidence:
  "\<exists>r. classify_combined (init cats) description segment start_time end_time = Inr r
     \<and> classify_by_description (init cats) description = Inr (description_result r)
     \<and> classify_by_content (init cats) segment = Inr (content_result r)
     \<and> (primary_category (description_result r) = primary_category (content_result r) \<longrightarrow>
          cc_confidence_score r = min ((desc_confidence r + content_confidence r) / 1.5) 1
          \<and> min (desc_confidence r) (content_confidence r) \<le> cc_confidence_score r
          \<and> (max (desc_confidence r) (content_confidence r)
                \<le> 2 * min (desc_confidence r) (content_confidence r) \<longrightarrow>
              max (desc_confidence r) (content_confidence r) \<le> cc_confidence_score r))
     \<and> (primary_category (description_result r) \<noteq> primary_category (content_result r) \<longrightarrow>
          cc_confidence_score r = max (desc_confidence r) (content_confidence r) * 0.7
          \<and> cc_confidence_score r < max (desc_confidence r) (content_confidence r))"
proof -
  obtain dr where dr: "classify_by_description (init cats) description = Inr dr"
    and gd: "graded dr"
    using classify_by_description_graded by blast
  obtain cr where cr: "classify_by_content (init cats) segment = Inr cr"
    and gc: "graded cr"
    using classify_by_content_graded by blast
  obtain r where r: "classify_combined (init cats) description segment start_time end_time
        = Inr r"
    and rd: "description_result r = dr" and rc: "content_result r = cr"
    and conf: "cc_confidence_score r =
         (if primary_category dr = primary_category cr
          then min ((confidence_score dr + confidence_score cr) / 1.5) 1
          else max (confidence_score dr) (confidence_score cr) * 0.7)"
    using classify_combined_shape [OF dr cr] by blast
  let ?d = "confidence_score dr" and ?c = "confidence_score cr"
  have bounds: "0 \<le> ?d" "?d \<le> 1" "0 \<le> ?c" "?c \<le> 1"
    using gd gc by (auto simp: graded_def)
  have agree: "primary_category dr = primary_category cr \<longrightarrow>
          cc_confidence_score r = min ((?d + ?c) / 1.5) 1
          \<and> min ?d ?c \<le> cc_confidence_score r
          \<and> (max ?d ?c \<le> 2 * min ?d ?c \<longrightarrow> max ?d ?c \<le> cc_confidence_score r)"
    using agreement_arith [OF bounds] conf by presburger
  have "primary_category dr \<noteq> primary_category cr \<longrightarrow> 0 < max ?d ?c"
    using gd gc by (auto simp: graded_def max_def)
  then have disagree: "primary_category dr \<noteq> primary_category cr \<longrightarrow>
          cc_confidence_score r = max ?d ?c * 0.7 \<and> cc_confidence_score r < max ?d ?c"
    using conf by auto
  show ?thesis
    using r dr cr agree disagree unfolding rd [symmetric] rc [symmetric] by blast
qed

lemma content_fed_said:
  "classify_by_content (init fed_config) ''The Fed said''
   = Inr \<lparr>primary_category = ''fed'', confidence_score = 1,
           all_scores = [(''fed'', \<lparr>c_score = 253 / 3, base_score = 1,
                           density_bonus = 250 / 3,
                           clustering_bonus = 0, c_matched_keywords = [''fed''],
                           keyword_count = 1\<rparr>)],
           method_name = ''content_analysis''\<rparr>"
  by code_simp

lemma description_cpi:
  "classify_by_description (init fed_config) ''CPI report''
   = Inr \<lparr>primary_category = ''inflation'', confidence_score = 2 / 5,
           all_scores = [(''inflation'', \<lparr>d_score = 2, d_matched_keywords = [''cpi'']\<rparr>)],
           method_name = ''description_keywords''\<rparr>"
  by code_simp

theorem classify_combined_confidence_witness:
  "(\<exists>r. classify_combined (init fed_config) ''The Federal Reserve raised interest rate''
           ''The Fed said'' 0 60 = Inr r
       \<and> primary_category (description_result r) = primary_category (content_result r)
       \<and> max (desc_confidence r) (content_confidence r)
            \<le> 2 * min (desc_confidence r) (content_confidence r)
       \<and> cc_confidence_score r = 1
       \<and> max (desc_confidence r) (content_confidence r) \<le> cc_confidence_score r)
   \<and> (\<exists>r. classify_combined (init fed_config) ''CPI report'' ''The Fed said'' 0 60 = Inr r
       \<and> primary_category (description_result r) \<noteq> primary_category (content_result r)
       \<and> cc_confidence_score r = 7 / 10
       \<and> cc_confidence_score r < max (desc_confidence r) (content_confidence r))"
proof -
  define dr_fed where "dr_fed =
     \<lparr>primary_category = ''fed'', confidence_score = (1::rat),
           all_scores = [(''fed'', \<lparr>d_score = 7, d_matched_keywords =
                           [''federal reserve'', ''interest rate'', ''fed'']\<rparr>)],
           method_name = ''description_keywords''\<rparr>"
  define cr_fed where "cr_fed =
     \<lparr>primary_category = ''fed'', confidence_score = (1::rat),
           all_scores = [(''fed'', \<lparr>c_score = 253 / 3, base_score = 1,
                           density_bonus = 250 / 3,
                           clustering_bonus = 0, c_matched_keywords = [''fed''],
                           keyword_count = 1\<rparr>)],
           method_name = ''content_analysis''\<rparr>"
  define dr_cpi where "dr_cpi =
     \<lparr>primary_category = ''inflation'', confidence_score = (2 / 5 :: rat),
           all_scores = [(''inflation'', \<lparr>d_score = 2, d_matched_keywords = [''cpi'']\<rparr>)],
           method_name = ''description_keywords''\<rparr>"
  obtain r where r: "classify_combined (init fed_config)
        ''The Federal Reserve raised interest rate'' ''The Fed said'' 0 60 = Inr r"
    and d: "classify_by_description (init fed_config)
        ''The Federal Reserve raised interest rate'' = Inr (description_result r)"
    and c: "classify_by_content (init fed_config) ''The Fed said'' = Inr (content_result r)"
    and agree: "primary_category (description_result r) = primary_category (content_result r)
       \<longrightarrow> cc_confidence_score r = min ((desc_confidence r + content_confidence r) / 1.5) 1
          \<and> min (desc_confidence r) (content_confidence r) \<le> cc_confidence_score r
          \<and> (max (desc_confidence r) (content_confidence r)
                \<le> 2 * min (desc_confidence r) (content_confidence r) \<longrightarrow>
              max (desc_confidence r) (content_confidence r) \<le> cc_confidence_score r)"
    using classify_combined_confidence
      [of fed_config "''The Federal Reserve raised interest rate''" "''The Fed said''" 0 60]
    by blast
  have "Inr (description_result r) = Inr dr_fed" "Inr (content_result r) = Inr cr_fed"
    using d c description_fed content_fed_said by (simp_all add: dr_fed_def cr_fed_def)
  then have "description_result r = dr_fed" "content_result r = cr_fed"
    by simp_all
  then have "primary_category (description_result r) = ''fed''" "desc_confidence r = 1"
    "primary_category (content_result r) = ''fed''" "content_confidence r = 1"
    by (simp_all add: dr_fed_def cr_fed_def)
  then have first: "primary_category (description_result r)
        = primary_category (content_result r)
       \<and> max (desc_confidence r) (content_confidence r)
            \<le> 2 * min (desc_confidence r) (content_confidence r)
       \<and> cc_confidence_score r = 1
       \<and> max (desc_confidence r) (content_confidence r) \<le> cc_confidence_score r"
    using agree by simp
  obtain q where q: "classify_combined (init fed_config) ''CPI report'' ''The Fed said'' 0 60
        = Inr q"
    and qd: "classify_by_description (init fed_config) ''CPI report''
        = Inr (description_result q)"
    and qc: "classify_by_content (init fed_config) ''The Fed said'' = Inr (content_result q)"
    and disagree: "primary_category (description_result q)
          \<noteq> primary_category (content_result q) \<longrightarrow>
          cc_confidence_score q = max (desc_confidence q) (content_confidence q) * 0.7
          \<and> cc_confidence_score q < max (desc_confidence q) (content_confidence q)"
    using classify_combined_confidence [of fed_config "''CPI report''" "''The Fed said''" 0 60]
    by blast
  have "Inr (description_result q) = Inr dr_cpi" "Inr (content_result q) = Inr cr_fed"
    using qd qc description_cpi content_fed_said by (simp_all add: dr_cpi_def cr_fed_def)
  then have "description_result q = dr_cpi" "content_result q = cr_fed"
    by simp_all
  then have "primary_category (description_result q) = ''inflation''"
    "desc_confidence q = 2 / 5"
    "primary_category (content_result q) = ''fed''" "content_confidence q = 1"
    by (simp_all add: dr_cpi_def cr_fed_def)
  then have second: "primary_category (description_result q)
        \<noteq> primary_category (content_result q)
       \<and> cc_confidence_score q = 7 / 10
       \<and> cc_confidence_score q < max (desc_confidence q) (content_confidence q)"
    using disagree by simp
  show ?thesis using r first q second by blast
qed

subsection \<open>Category suggestions\<close>

lemma description_categories_props:
  "description_categories weights dl cats acc = Inr r \<Longrightarrow> d_positive acc
     \<Longrightarrow> distinct (map fst acc) \<Longrightarrow> d_positive r \<and> distinct (map fst r)"
proof (induction cats arbitrary: acc)
  case Nil
  then show ?case by simp
next
  case (Cons item cats)
  obtain c kws where item: "item = (c, kws)" by (cases item)
  show ?case
  proof (cases "c = ''general''")
    case True
    then show ?thesis using Cons by (simp add: item)
  next
    case False
    then obtain s m where km: "description_keywords weights dl c kws (0, []) = Inr (s, m)"
      using Cons.prems(1) by (auto simp: item split: sum.splits)
    show ?thesis
    proof (cases "0 < s")
      case True
      let ?acc = "AList.update c \<lparr>d_score = s, d_matched_keywords = m\<rparr> acc"
      have "d_positive ?acc" "distinct (map fst ?acc)"
        using Cons.prems(2,3) False True by (simp_all add: d_positive_update distinct_update)
      moreover have "description_categories weights dl cats ?acc = Inr r"
        using Cons.prems(1) False True by (simp add: item km)
      ultimately show ?thesis using Cons.IH by blast
    next
      case neg: False
      then have "description_categories weights dl cats acc = Inr r"
        using Cons.prems(1) False by (simp add: item km)
      then show ?thesis using Cons.IH Cons.prems(2,3) by blast
    qed
  qed
qed

lemma description_all_scores:
  assumes "classify_by_description self description = Inr r"
  shows "d_positive (all_scores r) \<and> distinct (map fst (all_scores r))"
proof -
  obtain scores where
    sc: "description_categories (category_weights self) (lower description)
           (categories self) [] = Inr scores"
    using assms by (auto simp: classify_by_description_def split: sum.splits)
  have props: "d_positive scores \<and> distinct (map fst scores)"
    using description_categories_props [OF sc] by (simp add: d_positive_def)
  have "all_scores r = scores"
    using assms by (cases scores) (auto simp: classify_by_description_def sc split: prod.splits)
  then show ?thesis using props by simp
qed

lemma content_categories_props:
  "content_categories weights cl cats acc = Inr r \<Longrightarrow> c_positive acc
     \<Longrightarrow> distinct (map fst acc) \<Longrightarrow> c_positive r \<and> distinct (map fst r)"
proof (induction cats arbitrary: acc)
  case Nil
  then show ?case by simp
next
  case (Cons item cats)
  obtain c kws where item: "item = (c, kws)" by (cases item)
  show ?case
  proof (cases "c = ''general''")
    case True
    then show ?thesis using Cons by (simp add: item)
  next
    case False
    then obtain s m ps where
      km: "content_keywords weights cl c kws (0, [], []) = Inr (s, m, ps)"
      using Cons.prems(1) by (auto simp: item split: sum.splits)
    show ?thesis
    proof (cases "0 < s")
      case True
      let ?e = "\<lparr>c_score = s + s / of_nat (length cl) * 1000
                    + calculate_clustering_bonus ps (length cl),
                 base_score = s, density_bonus = s / of_nat (length cl) * 1000,
                 clustering_bonus = calculate_clustering_bonus ps (length cl),
                 c_matched_keywords = m, keyword_count = length m\<rparr>"
      let ?acc = "AList.update c ?e acc"
      have "c_positive ?acc" "distinct (map fst ?acc)"
        using Cons.prems(2,3) False final_score_positive [OF True]
        by (simp_all add: c_positive_update distinct_update)
      moreover have "content_categories weights cl cats ?acc = Inr r"
        using Cons.prems(1) False True by (simp add: item km Let_def)
      ultimately show ?thesis using Cons.IH by blast
    next
      case neg: False
      then have "content_categories weights cl cats acc = Inr r"
        using Cons.prems(1) False by (simp add: item km)
      then show ?thesis using Cons.IH Cons.prems(2,3) by blast
    qed
  qed
qed

lemma content_all_scores:
  assumes "classify_by_content self segment = Inr r"
  shows "c_positive (all_scores r) \<and> distinct (map fst (all_scores r))"
proof (cases "segment = [] \<or> list_all isspace segment")
  case True
  then show ?thesis using assms by (auto simp: classify_by_content_def c_positive_def)
next
  case False
  then obtain scores where
    sc: "content_categories (category_weights self) (lower segment)
           (categories self) [] = Inr scores"
    using assms by (auto simp: classify_by_content_def split: sum.splits)
  have props: "c_positive scores \<and> distinct (map fst scores)"
    using content_categories_props [OF sc] by (simp add: c_positive_def)
  have "all_scores r = scores"
    using assms False
    by (cases scores) (auto simp: classify_by_content_def sc Let_def split: prod.splits)
  then show ?thesis using props by simp
qed

lemma add_description_scores_distinct:
  "distinct (map fst acc) \<Longrightarrow> distinct (map fst (add_description_scores ds acc))"
  by (induction ds acc rule: add_description_scores.induct) (simp_all add: distinct_update)

lemma add_content_scores_distinct:
  "distinct (map fst acc) \<Longrightarrow> distinct (map fst (add_content_scores cs acc))"
  by (induction cs acc rule: add_content_scores.induct)
     (simp_all add: distinct_update split: option.splits)

lemma map_of_add_description_scores:
  "distinct (map fst ds) \<Longrightarrow>
   map_of (add_description_scores ds acc) c =
     (case map_of ds c of
        Some data \<Rightarrow> Some \<lparr>description_score = d_score data, content_score = 0,
                            combined_score = d_score data * 0.6\<rparr>
      | None \<Rightarrow> map_of acc c)"
proof (induction ds acc rule: add_description_scores.induct)
  case (1 acc)
  show ?case by simp
next
  case (2 cat data rest acc)
  have notin: "map_of rest cat = None"
    using "2.prems" by (simp add: map_of_eq_None_iff)
  show ?case
    using "2.IH" "2.prems" notin by (auto simp: update_conv' split: option.splits)
qed

lemma map_of_add_content_scores:
  "distinct (map fst cs) \<Longrightarrow>
   map_of (add_content_scores cs acc) c =
     (case map_of cs c of
        Some data \<Rightarrow>
          Some (case map_of acc c of
                  Some old \<Rightarrow> old\<lparr>content_score := c_score data,
                                   combined_score := combined_score old + c_score data * 0.8\<rparr>
                | None \<Rightarrow> \<lparr>description_score = 0, content_score = c_score data,
                            combined_score = c_score data * 0.8\<rparr>)
      | None \<Rightarrow> map_of acc c)"
proof (induction cs acc rule: add_content_scores.induct)
  case (1 acc)
  show ?case by simp
next
  case (2 cat data rest acc)
  have notin: "map_of rest cat = None"
    using "2.prems" by (simp add: map_of_eq_None_iff)
  show ?case
    using "2.IH" "2.prems" notin by (auto simp: update_conv' split: option.splits)
qed

lemma combined_entry_values:
  assumes "distinct (map fst ds)" "distinct (map fst cs)"
    and "(c, e) \<in> set (add_content_scores cs (add_description_scores ds []))"
  shows "description_score e = lookup_d ds c \<and> content_score e = lookup_c cs c
         \<and> combined_score e = lookup_d ds c * 0.6 + lookup_c cs c * 0.8"
proof -
  have "distinct (map fst (add_content_scores cs (add_description_scores ds [])))"
    by (simp add: add_content_scores_distinct add_description_scores_distinct)
  then have "map_of (add_content_scores cs (add_description_scores ds [])) c = Some e"
    using assms(3) by simp
  then show ?thesis
    unfolding map_of_add_content_scores [OF assms(2)] map_of_add_description_scores [OF assms(1)]
    by (auto simp: lookup_d_def lookup_c_def split: option.splits)
qed

lemma lookup_d_nonneg: "d_positive ds \<Longrightarrow> 0 \<le> lookup_d ds c"
  by (auto simp: lookup_d_def d_positive_def split: option.splits dest!: map_of_SomeD)

lemma lookup_c_nonneg: "c_positive cs \<Longrightarrow> 0 \<le> lookup_c cs c"
  by (auto simp: lookup_c_def c_positive_def split: option.splits dest!: map_of_SomeD)

lemma descending_sort_take:
  "sorted_wrt (\<lambda>a b. confidence b \<le> confidence a)
     (take n (sort_key (\<lambda>x. - confidence x) xs))"
proof -
  have "sorted (map (\<lambda>x. - confidence x) (sort_key (\<lambda>x. - confidence x) xs))"
    by simp
  then have "sorted_wrt (\<lambda>a b. confidence b \<le> confidence a)
      (sort_key (\<lambda>x. - confidence x) xs)"
    by (simp add: sorted_map)
  then show ?thesis by (rule sorted_wrt_take)
qed

lemma description_score_of_lookup:
  "classify_by_description self description = Inr r \<Longrightarrow>
   description_score_of self description c = lookup_d (all_scores r) c"
  by (simp add: description_score_of_def lookup_d_def)

lemma content_score_of_lookup:
  "classify_by_content self segment = Inr r \<Longrightarrow>
   content_score_of self segment c = lookup_c (all_scores r) c"
  by (simp add: content_score_of_def lookup_c_def)

text \<open>
  C9. For every category table, description and transcript segment,
  \<open>get_category_suggestions\<close> returns at most 3 entries in descending order of
  confidence; each entry carries the description score and the content score of its
  category (0 where the category was not scored), and its confidence is
  (description score times 0.6 plus content score times 0.8) divided by 10, cut off at 1,
  which lies in [0, 1].
\<close>

theorem category_suggestions_top3:
  "\<exists>suggestions. get_category_suggestions (init cats) description segment = Inr suggestions
     \<and> length suggestions \<le> 3
     \<and> sorted_wrt (\<lambda>a b. confidence b \<le> confidence a) suggestions
     \<and> (\<forall>s \<in> set suggestions.
          sg_description_score s = description_score_of (init cats) description (category s)
          \<and> sg_content_score s = content_score_of (init cats) segment (category s)
          \<and> confidence s
              = min ((sg_description_score s * 0.6 + sg_content_score s * 0.8) / 10) 1
          \<and> 0 \<le> confidence s \<and> confidence s \<le> 1)"
proof -
  obtain dr where dr: "classify_by_description (init cats) description = Inr dr"
    using classify_by_description_graded by blast
  obtain cr where cr: "classify_by_content (init cats) segment = Inr cr"
    using classify_by_content_graded by blast
  define combined where
    "combined = add_content_scores (all_scores cr) (add_description_scores (all_scores dr) [])"
  define result where
    "result = take 3 (sort_key (\<lambda>x. - confidence x) (map to_suggestion combined))"
  have run: "get_category_suggestions (init cats) description segment = Inr result"
    unfolding get_category_suggestions_def dr cr result_def combined_def
    by (simp add: Let_def)
  have len: "length result \<le> 3"
    unfolding result_def by simp
  have desc: "sorted_wrt (\<lambda>a b. confidence b \<le> confidence a) result"
    unfolding result_def by (rule descending_sort_take)
  have dprops: "d_positive (all_scores dr)" "distinct (map fst (all_scores dr))"
    using description_all_scores [OF dr] by simp_all
  have cprops: "c_positive (all_scores cr)" "distinct (map fst (all_scores cr))"
    using content_all_scores [OF cr] by simp_all
  have each: "\<forall>s \<in> set result.
          sg_description_score s = description_score_of (init cats) description (category s)
          \<and> sg_content_score s = content_score_of (init cats) segment (category s)
          \<and> confidence s
              = min ((sg_description_score s * 0.6 + sg_content_score s * 0.8) / 10) 1
          \<and> 0 \<le> confidence s \<and> confidence s \<le> 1"
  proof
    fix s assume "s \<in> set result"
    then have "s \<in> set (sort_key (\<lambda>x. - confidence x) (map to_suggestion combined))"
      unfolding result_def by (rule in_set_takeD)
    then have "s \<in> to_suggestion ` set combined"
      by simp
    then obtain item where "item \<in> set combined" and s0: "s = to_suggestion item"
      by blast
    then obtain c e where mem: "(c, e) \<in> set combined" and s: "s = to_suggestion (c, e)"
      by (metis surj_pair)
    have vals: "description_score e = lookup_d (all_scores dr) c"
      "content_score e = lookup_c (all_scores cr) c"
      "combined_score e = lookup_d (all_scores dr) c * 0.6 + lookup_c (all_scores cr) c * 0.8"
      using combined_entry_values [OF dprops(2) cprops(2) mem [unfolded combined_def]]
      by simp_all
    have nonneg: "0 \<le> lookup_d (all_scores dr) c" "0 \<le> lookup_c (all_scores cr) c"
      using lookup_d_nonneg [OF dprops(1)] lookup_c_nonneg [OF cprops(1)] by simp_all
    have fields: "category s = c" "sg_description_score s = description_score e"
      "sg_content_score s = content_score e" "confidence s = min (combined_score e / 10) 1"
      by (simp_all add: s to_suggestion_def)
    have "0 \<le> combined_score e / 10"
      unfolding vals using nonneg by simp
    then have range: "0 \<le> confidence s" "confidence s \<le> 1"
      unfolding fields by simp_all
    show "sg_description_score s = description_score_of (init cats) description (category s)
          \<and> sg_content_score s = content_score_of (init cats) segment (category s)
          \<and> confidence s
              = min ((sg_description_score s * 0.6 + sg_content_score s * 0.8) / 10) 1
          \<and> 0 \<le> confidence s \<and> confidence s \<le> 1"
      using range
      unfolding fields vals description_score_of_lookup [OF dr] content_score_of_lookup [OF cr]
      by simp
  qed
  show ?thesis
    using run len desc each by blast
qed

lemma suggestions_fed:
  "get_category_suggestions (init fed_config) ''cpi'' ''the fed''
   = Inr [\<lparr>category = ''fed'', confidence = 1, sg_description_score = 0,
            sg_content_score = 1007 / 7\<rparr>,
          \<lparr>category = ''inflation'', confidence = 3 / 25, sg_description_score = 2,
            sg_content_score = 0\<rparr>]"
  by code_simp

theorem category_suggestions_top3_witness:
  "\<exists>suggestions. get_category_suggestions (init fed_config) ''cpi'' ''the fed''
       = Inr suggestions
     \<and> suggestions =
         [\<lparr>category = ''fed'', confidence = 1, sg_description_score = 0,
            sg_content_score = 1007 / 7\<rparr>,
          \<lparr>category = ''inflation'', confidence = 3 / 25, sg_description_score = 2,
            sg_content_score = 0\<rparr>]
     \<and> length suggestions \<le> 3
     \<and> sorted_wrt (\<lambda>a b. confidence b \<le> confidence a) suggestions
     \<and> (\<forall>s \<in> set suggestions.
          sg_description_score s = description_score_of (init fed_config) ''cpi'' (category s)
          \<and> sg_content_score s = content_score_of (init fed_config) ''the fed'' (category s)
          \<and> confidence s
              = min ((sg_description_score s * 0.6 + sg_content_score s * 0.8) / 10) 1
          \<and> 0 \<le> confidence s \<and> confidence s \<le> 1)"
proof -
  obtain suggestions where
    run: "get_category_suggestions (init fed_config) ''cpi'' ''the fed'' = Inr suggestions"
    and rest: "length suggestions \<le> 3"
      "sorted_wrt (\<lambda>a b. confidence b \<le> confidence a) suggestions"
      "\<forall>s \<in> set suggestions.
          sg_description_score s = description_score_of (init fed_config) ''cpi'' (category s)
          \<and> sg_content_score s = content_score_of (init fed_config) ''the fed'' (category s)
          \<and> confidence s
              = min ((sg_description_score s * 0.6 + sg_content_score s * 0.8) / 10) 1
          \<and> 0 \<le> confidence s \<and> confidence s \<le> 1"
    using category_suggestions_top3 [of fed_config "''cpi''" "''the fed''"] by blast
  have "suggestions =
         [\<lparr>category = ''fed'', confidence = 1, sg_description_score = 0,
            sg_content_score = 1007 / 7\<rparr>,
          \<lparr>category = ''inflation'', confidence = 3 / 25, sg_description_score = 2,
            sg_content_score = 0\<rparr>]"
    using run unfolding suggestions_fed by simp
  then show ?thesis using run rest by blast
qed

lemma find_clip_timestamps_outcome:
  "outcome (find_clip_timestamps v client t d w) = found_of (fst (client (ClipQuery t d) w))"
  by (auto simp: find_clip_timestamps_def found_of_def
      split: prod.splits sum.splits failure.splits option.splits)

lemma find_clip_timestamps_world:
  "world (find_clip_timestamps v client t d w) = snd (client (ClipQuery t d) w)"
  by (auto simp: find_clip_timestamps_def
      split: prod.splits sum.splits failure.splits option.splits)

lemma find_multiple_clips_items:
  "fst (find_multiple_clips v client t ds w)
   = map (\<lambda>(d, a). clip_item_of d (found_of a)) (zip ds (answers client t ds w))"
proof (induction ds arbitrary: w)
  case Nil
  show ?case by simp
next
  case (Cons d ds)
  obtain a w' where call: "client (ClipQuery t d) w = (a, w')"
    by (cases "client (ClipQuery t d) w")
  have "world (find_clip_timestamps v client t d w) = w'"
    and "outcome (find_clip_timestamps v client t d w) = found_of a"
    by (simp_all add: find_clip_timestamps_world find_clip_timestamps_outcome call)
  then show ?case
    using Cons.IH [of w']
    by (cases "find_multiple_clips v client t ds w'") (simp add: call Let_def)
qed

lemma length_answers: "length (answers client t ds w) = length ds"
  by (induction ds arbitrary: w) (auto split: prod.splits)

text \<open>
  C3. \<open>find_clip_timestamps\<close> raises \<open>ClipExtractionError\<close> exactly when the call to the
  service fails; whenever the service returns a response text, the result is what the
  parse of that text returns, and a parse that finds nothing gives the absent pair, not an
  exception.
\<close>

theorem find_clip_timestamps_raises_only_on_service_failure:
  "((\<exists>e. outcome (find_clip_timestamps v client t d w) = Inl e)
      \<longleftrightarrow> (\<exists>f. fst (client (ClipQuery t d) w) = Inl f))
   \<and> (fst (client (ClipQuery t d) w) = Inr content \<longrightarrow>
        outcome (find_clip_timestamps v client t d w)
          = Inr (parse_timestamp_response content))"
  unfolding find_clip_timestamps_outcome
  by (cases "fst (client (ClipQuery t d) w)")
     (auto simp: found_of_def split: failure.splits)

theorem find_clip_timestamps_raises_only_on_service_failure_witness:
  "fst (echo ''no timestamps here'' (ClipQuery ''t'' ''d'') ()) = Inr ''no timestamps here''
   \<and> outcome (find_clip_timestamps (\<lambda>x. True) (echo ''no timestamps here'') ''t'' ''d'' ())
       = Inr None
   \<and> (\<exists>f. fst (failing (ClipQuery ''t'' ''d'') ()) = Inl f)
   \<and> (\<exists>e. outcome (find_clip_timestamps (\<lambda>x. True) failing ''t'' ''d'' ()) = Inl e)"
proof -
  have parse: "parse_timestamp_response ''no timestamps here'' = None"
    by code_simp
  have a: "fst (echo ''no timestamps here'' (ClipQuery ''t'' ''d'') ()) = Inr ''no timestamps here''"
    by (simp add: echo_def)
  have b: "\<exists>f. fst (failing (ClipQuery ''t'' ''d'') ()) = Inl f"
    by (simp add: failing_def)
  show ?thesis
    using a b parse
      find_clip_timestamps_raises_only_on_service_failure
        [of "\<lambda>x. True" "echo ''no timestamps here''" "''t''" "''d''" "()" "''no timestamps here''"]
      find_clip_timestamps_raises_only_on_service_failure
        [of "\<lambda>x. True" failing "''t''" "''d''" "()" "''x''"]
    by simp
qed

text \<open>
  C7. For every list of clip descriptions, \<open>find_multiple_clips\<close> returns one result for
  each description, in input order and carrying its description. The result of an item is
  determined by its own description and the service's answer to its own query: a failed
  call is recorded in that item (error message, success false) and nowhere else.
\<close>

theorem find_multiple_clips_isolates_failures:
  "length (fst (find_multiple_clips v client t ds w)) = length ds
   \<and> map item_description (fst (find_multiple_clips v client t ds w)) = ds
   \<and> (\<forall>i < length ds.
         fst (find_multiple_clips v client t ds w) ! i
           = clip_item_of (ds ! i) (found_of (answers client t ds w ! i))
         \<and> ((\<exists>f. answers client t ds w ! i = Inl f)
              \<longleftrightarrow> item_error (fst (find_multiple_clips v client t ds w) ! i) \<noteq> None)
         \<and> (item_error (fst (find_multiple_clips v client t ds w) ! i) \<noteq> None
              \<longrightarrow> \<not> item_success (fst (find_multiple_clips v client t ds w) ! i)))"
proof -
  let ?replies = "answers client t ds w"
  have len: "length ?replies = length ds" by (rule length_answers)
  have descr: "item_description (clip_item_of d f) = d" for d f
    by (cases f) (simp_all add: clip_item_of_def Let_def)
  have err: "item_error (clip_item_of d (found_of a)) \<noteq> None \<longleftrightarrow> (\<exists>f. a = Inl f)" for d a
    by (cases a) (auto simp: clip_item_of_def found_of_def Let_def split: failure.splits)
  have fail: "item_error (clip_item_of d f) \<noteq> None \<Longrightarrow> \<not> item_success (clip_item_of d f)"
    for d f
    by (cases f) (simp_all add: clip_item_of_def Let_def)
  have "map item_description (fst (find_multiple_clips v client t ds w)) = map fst (zip ds ?replies)"
    unfolding find_multiple_clips_items by (simp add: descr case_prod_unfold comp_def)
  then have order: "map item_description (fst (find_multiple_clips v client t ds w)) = ds"
    using len by simp
  have nth: "fst (find_multiple_clips v client t ds w) ! i
      = clip_item_of (ds ! i) (found_of (?replies ! i))" if "i < length ds" for i
    unfolding find_multiple_clips_items using that len by simp
  show ?thesis
    using len order nth err fail by (simp add: find_multiple_clips_items)
qed

lemma parse_ten_forty: "parse_timestamp_response ''START_TIME: 10 END_TIME: 40'' = Some (10, 40)"
  by code_simp

lemma flaky_batch:
  "fst (find_multiple_clips (\<lambda>x. True) flaky ''t'' [''a'', ''b'', ''c''] 0)
   = [\<lparr>item_description = ''a'', item_start_time = Some 10, item_end_time = Some 40,
        item_duration = Some 30, item_success = True, item_error = None\<rparr>,
      \<lparr>item_description = ''b'', item_start_time = None, item_end_time = None,
        item_duration = None, item_success = False,
        item_error = Some ''OpenAI API error: timeout''\<rparr>,
      \<lparr>item_description = ''c'', item_start_time = Some 10, item_end_time = Some 40,
        item_duration = Some 30, item_success = True, item_error = None\<rparr>]"
  by (simp add: find_clip_timestamps_def flaky_def parse_ten_forty clip_item_of_def truthy_def
      str_of_error_def Let_def)

lemma flaky_answers:
  "answers flaky ''t'' [''a'', ''b'', ''c''] 0
   = [Inr ''START_TIME: 10 END_TIME: 40'', Inl (APIError ''timeout''),
      Inr ''START_TIME: 10 END_TIME: 40'']"
  by (simp add: flaky_def)

theorem find_multiple_clips_isolates_failures_witness:
  "(1::nat) < length [''a'', ''b'', ''c'']
   \<and> (\<exists>f. answers flaky ''t'' [''a'', ''b'', ''c''] 0 ! 1 = Inl f)
   \<and> length (fst (find_multiple_clips (\<lambda>x. True) flaky ''t'' [''a'', ''b'', ''c''] 0)) = 3
   \<and> map item_description (fst (find_multiple_clips (\<lambda>x. True) flaky ''t'' [''a'', ''b'', ''c''] 0))
       = [''a'', ''b'', ''c'']
   \<and> map item_success (fst (find_multiple_clips (\<lambda>x. True) flaky ''t'' [''a'', ''b'', ''c''] 0))
       = [True, False, True]
   \<and> item_error (fst (find_multiple_clips (\<lambda>x. True) flaky ''t'' [''a'', ''b'', ''c''] 0) ! 1)
       \<noteq> None"
proof -
  have i: "(1::nat) < length [''a'', ''b'', ''c'']" by simp
  have f: "\<exists>f. answers flaky ''t'' [''a'', ''b'', ''c''] 0 ! 1 = Inl f"
    unfolding flaky_answers by simp
  have "item_error (fst (find_multiple_clips (\<lambda>x. True) flaky ''t'' [''a'', ''b'', ''c''] 0) ! 1)
       \<noteq> None"
    using find_multiple_clips_isolates_failures
      [of "\<lambda>x. True" flaky "''t''" "[''a'', ''b'', ''c'']" 0] i f
    by blast
  moreover have
    "length (fst (find_multiple_clips (\<lambda>x. True) flaky ''t'' [''a'', ''b'', ''c''] 0)) = 3"
    "map item_description (fst (find_multiple_clips (\<lambda>x. True) flaky ''t'' [''a'', ''b'', ''c''] 0))
       = [''a'', ''b'', ''c'']"
    using find_multiple_clips_isolates_failures
      [of "\<lambda>x. True" flaky "''t''" "[''a'', ''b'', ''c'']" 0]
    by simp_all
  moreover have
    "map item_success (fst (find_multiple_clips (\<lambda>x. True) flaky ''t'' [''a'', ''b'', ''c''] 0))
       = [True, False, True]"
    unfolding flaky_batch by simp
  ultimately show ?thesis using i f by blast
qed

lemma clip_item_of_fields:
  "item_start_time (clip_item_of d (Inl e)) = None"
  "item_end_time (clip_item_of d (Inl e)) = None"
  "item_start_time (clip_item_of d (Inr None)) = None"
  "item_end_time (clip_item_of d (Inr None)) = None"
  "clip_item_of d (Inr (Some (s, e')))
     = \<lparr>item_description = d, item_start_time = Some s, item_end_time = Some e',
        item_duration = (if s \<noteq> 0 \<and> e' \<noteq> 0 then Some (e' - s) else None),
        item_success = True, item_error = None\<rparr>"
  by (simp_all add: clip_item_of_def truthy_def Let_def)

lemma clip_item_of_truthiness:
  "(\<forall>s e. item_start_time (clip_item_of d f) = Some s
            \<and> item_end_time (clip_item_of d f) = Some e \<longrightarrow>
          item_success (clip_item_of d f)
          \<and> item_duration (clip_item_of d f)
              = (if s \<noteq> 0 \<and> e \<noteq> 0 then Some (e - s) else None))
   \<and> (item_start_time (clip_item_of d f) = None \<or> item_end_time (clip_item_of d f) = None
        \<longrightarrow> \<not> item_success (clip_item_of d f) \<and> item_duration (clip_item_of d f) = None)"
proof (cases f)
  case (Inl e)
  then show ?thesis by (simp add: clip_item_of_def)
next
  case (Inr ts)
  then show ?thesis
    by (cases ts) (auto simp: clip_item_of_def truthy_def Let_def)
qed

text \<open>
  C10. In every result item of \<open>find_multiple_clips\<close>, success means that both timestamps
  are present, and the duration is the difference of the timestamps only when both are
  present and non-zero (truthy); an item resolved with start time 0 and a numeric end time
  reports success while its duration is absent.
\<close>

theorem find_multiple_clips_duration_needs_truthy_timestamps:
  "\<forall>r \<in> set (fst (find_multiple_clips v client t ds w)).
     (\<forall>s e. item_start_time r = Some s \<and> item_end_time r = Some e \<longrightarrow>
          item_success r
          \<and> item_duration r = (if s \<noteq> 0 \<and> e \<noteq> 0 then Some (e - s) else None))
     \<and> (item_start_time r = None \<or> item_end_time r = None \<longrightarrow>
          \<not> item_success r \<and> item_duration r = None)
     \<and> (\<forall>e. item_start_time r = Some 0 \<and> item_end_time r = Some e \<longrightarrow>
          item_success r \<and> item_duration r = None)"
proof
  fix r assume "r \<in> set (fst (find_multiple_clips v client t ds w))"
  then obtain d a where r: "r = clip_item_of d (found_of a)"
    unfolding find_multiple_clips_items by auto
  show "(\<forall>s e. item_start_time r = Some s \<and> item_end_time r = Some e \<longrightarrow>
          item_success r
          \<and> item_duration r = (if s \<noteq> 0 \<and> e \<noteq> 0 then Some (e - s) else None))
     \<and> (item_start_time r = None \<or> item_end_time r = None \<longrightarrow>
          \<not> item_success r \<and> item_duration r = None)
     \<and> (\<forall>e. item_start_time r = Some 0 \<and> item_end_time r = Some e \<longrightarrow>
          item_success r \<and> item_duration r = None)"
    using clip_item_of_truthiness [of d "found_of a"] unfolding r by auto
qed

lemma parse_zero_thirty: "parse_timestamp_response ''START_TIME: 0 END_TIME: 30'' = Some (0, 30)"
  by code_simp

lemma zero_start_batch:
  "fst (find_multiple_clips (\<lambda>x. True) (echo ''START_TIME: 0 END_TIME: 30'') ''t'' [''intro''] ())
   = [\<lparr>item_description = ''intro'', item_start_time = Some 0, item_end_time = Some 30,
        item_duration = None, item_success = True, item_error = None\<rparr>]"
  by (simp add: find_clip_timestamps_def echo_def parse_zero_thirty clip_item_of_def truthy_def
      Let_def)

theorem find_multiple_clips_duration_needs_truthy_timestamps_witness:
  "\<exists>r \<in> set (fst (find_multiple_clips (\<lambda>x. True) (echo ''START_TIME: 0 END_TIME: 30'')
                     ''t'' [''intro''] ())).
      item_start_time r = Some 0 \<and> item_end_time r = Some 30
      \<and> item_success r \<and> item_duration r = None"
proof -
  let ?r = "\<lparr>item_description = ''intro'', item_start_time = Some (0::rat),
        item_end_time = Some (30::rat),
        item_duration = None, item_success = True, item_error = None\<rparr>"
  have set_eq: "set (fst (find_multiple_clips (\<lambda>x. True)
      (echo ''START_TIME: 0 END_TIME: 30'') ''t'' [''intro''] ())) = {?r}"
    unfolding zero_start_batch by simp
  have mem: "?r \<in> set (fst (find_multiple_clips (\<lambda>x. True)
      (echo ''START_TIME: 0 END_TIME: 30'') ''t'' [''intro''] ()))"
    unfolding set_eq by simp
  have given: "item_start_time ?r = Some 0 \<and> item_end_time ?r = Some 30" by simp
  have "item_success ?r \<and> item_duration ?r = None"
    using find_multiple_clips_duration_needs_truthy_timestamps
      [of "\<lambda>x. True" "echo ''START_TIME: 0 END_TIME: 30''" "''t''" "[''intro'']" "()"]
      mem given
    by blast
  then show ?thesis unfolding set_eq by simp
qed

text \<open>
  C5. When the service call fails, \<open>suggest_clip_improvements\<close> returns the original
  boundaries with confidence LOW, but the returned record has no \<open>changed\<close> entry: the
  result does not report whether anything changed. (The fallback of
  \<open>_parse_improvement_response\<close> and its regular result both carry the entry.)
\<close>

theorem suggest_clip_improvements_failure_omits_changed:
  "suggest_clip_improvements failing ''transcript'' 10 40 ()
   = (\<lparr>suggested_start = 10, suggested_end = 40,
       improvement_reason = ''Could not analyze improvements'',
       improvement_confidence = ''LOW'', changed = None\<rparr>, ())"
  by (simp add: suggest_clip_improvements_def failing_def)

lemma parse_improvement_response_reports_change:
  "changed (parse_improvement_response txt a b)
   = Some (suggested_start (parse_improvement_response txt a b) \<noteq> a
           \<or> suggested_end (parse_improvement_response txt a b) \<noteq> b)"
  by (simp add: parse_improvement_response_def Let_def)

lemma suggested_time_defaults:
  "suggested_time None original = original"
  "upper (group g 1) = ''KEEP_CURRENT'' \<Longrightarrow> suggested_time (Some g) original = original"
  "to_float (group g 1) = None \<Longrightarrow> suggested_time (Some g) original = original"
  by (simp_all add: suggested_time_def)

lemma runs_text_eval:
  "search start_pattern runs_text = None"
  "search end_pattern runs_text = None"
  "fallback_pair runs_text = Some (25 / 2, 45)"
  by code_simp+

lemma both_text_eval:
  "search start_pattern both_text = Some [''50'']"
  "search end_pattern both_text = Some [''40'']"
  "fallback_pair both_text = Some (40, 50)"
  "strict_pair ''50'' ''40'' = None"
  by code_simp+

text \<open>
  C6. On the response \<open>the clip runs from 12.5 seconds to 45.0 seconds\<close> the strict fields
  are not found and the parse yields (12.5, 45.0) through the fallback pattern. For every
  response, when a strict field is not matched the result is that of the fallback pattern,
  and when both strict fields are matched the result is decided by the two captured
  strings alone, the fallback pattern not being tried.
\<close>

theorem fallback_applied_only_when_strict_fields_fail:
  "search start_pattern runs_text = None
   \<and> parse_timestamp_response runs_text = Some (25 / 2, 45)
   \<and> (search start_pattern txt = None \<or> search end_pattern txt = None \<longrightarrow>
        parse_timestamp_response txt = fallback_pair txt)
   \<and> (search start_pattern txt = Some sg \<and> search end_pattern txt = Some eg \<longrightarrow>
        parse_timestamp_response txt = strict_pair (group sg 1) (group eg 1))"
proof -
  have "parse_timestamp_response runs_text = Some (25 / 2, 45)"
    by (simp add: parse_timestamp_response_def runs_text_eval)
  moreover have "search start_pattern txt = None \<or> search end_pattern txt = None \<longrightarrow>
        parse_timestamp_response txt = fallback_pair txt"
    by (auto simp: parse_timestamp_response_def split: option.splits)
  moreover have "search start_pattern txt = Some sg \<and> search end_pattern txt = Some eg \<longrightarrow>
        parse_timestamp_response txt = strict_pair (group sg 1) (group eg 1)"
    by (simp add: parse_timestamp_response_def)
  ultimately show ?thesis using runs_text_eval(1) by blast
qed

theorem fallback_applied_only_when_strict_fields_fail_witness:
  "search start_pattern runs_text = None
   \<and> parse_timestamp_response runs_text = fallback_pair runs_text
   \<and> fallback_pair runs_text = Some (25 / 2, 45)
   \<and> search start_pattern both_text = Some [''50'']
   \<and> search end_pattern both_text = Some [''40'']
   \<and> parse_timestamp_response both_text = None
   \<and> fallback_pair both_text = Some (40, 50)"
proof -
  have "parse_timestamp_response runs_text = fallback_pair runs_text"
    using fallback_applied_only_when_strict_fields_fail [of runs_text] runs_text_eval(1)
    by blast
  moreover have "parse_timestamp_response both_text = None"
    using fallback_applied_only_when_strict_fields_fail [of both_text "[''50'']" "[''40'']"]
      both_text_eval
    by (simp add: group_def)
  ultimately show ?thesis
    using runs_text_eval both_text_eval by simp
qed

end
